theory Spec2Isabelle
  imports Complex_Main "HOL-Library.Word" "HOL-Library.Char_ord" "HOL-Library.List_Lexorder"
begin

section \<open>Storage schema\<close>

text \<open>
  The schema of \<^verbatim>\<open>supabase/migrations/20250612204303_sunny_frost.sql\<close>, the last
  migration of the directory: it drops the tables, functions and triggers of the earlier
  ones and recreates them. A table is the list of its rows. Nullable columns are options.
\<close>

type_synonym uuid = "128 word"
type_synonym timestamptz = int

record user_profile =
  up_id :: uuid
  up_user_id :: uuid
  currency_code :: string
  currency :: string
  up_created_at :: "timestamptz option"

record category =
  cat_id :: uuid
  cat_user_id :: uuid
  name :: string
  color :: string
  icon :: string
  is_default :: "bool option"
  cat_created_at :: "timestamptz option"

record expense =
  exp_id :: uuid
  exp_user_id :: uuid
  category_id :: uuid
  amount :: rat
  description :: string
  date :: string
  exp_created_at :: "timestamptz option"

text \<open>\<open>auth_users\<close> holds the ids of \<^verbatim>\<open>auth.users\<close>, the target of the user foreign keys.\<close>

record db =
  auth_users :: "uuid list"
  user_profiles :: "user_profile list"
  categories :: "category list"
  expenses :: "expense list"

text \<open>
  The errors a request can end with. The violations carry the name of the constraint or
  index, \<open>Raise_exception\<close> the message of a \<^verbatim>\<open>RAISE EXCEPTION\<close>;
  \<open>Insufficient_privilege\<close> is the error of a new row that fails a policy's
  \<^verbatim>\<open>WITH CHECK\<close>, \<open>Not_single_row\<close> the error of the client library's
  \<^verbatim>\<open>.single()\<close> when the request returns no row or several.
\<close>

datatype error =
    Unique_violation string
  | Foreign_key_violation string
  | Check_violation string
  | Insufficient_privilege
  | Raise_exception string
  | Not_single_row

text \<open>
  A statement either fails, and then the stored data are what they were before it, or
  yields the new data. \<open>exec\<close> pairs the error, if any, with the data after the statement.
\<close>

definition exec :: "(db \<Rightarrow> error + db) \<Rightarrow> db \<Rightarrow> error option \<times> db" where
  "exec stmt d = (case stmt d of Inl e \<Rightarrow> (Some e, d) | Inr d' \<Rightarrow> (None, d'))"

section \<open>Row level security\<close>

text \<open>
  Who runs a statement: a client holding a verified token of the role \<^verbatim>\<open>authenticated\<close>
  (the identity is \<^verbatim>\<open>auth.uid()\<close>), a client without one, or a role that row level
  security does not apply to (the owner of the tables, under which the
  \<^verbatim>\<open>SECURITY DEFINER\<close> functions and the foreign-key actions run).
\<close>

datatype caller = Authenticated uuid | Anon | Privileged

text \<open>
  Every policy is \<^verbatim>\<open>TO authenticated\<close>: with row level security enabled and no policy
  for its role, a caller sees and changes no row.
\<close>

fun rls :: "caller \<Rightarrow> (uuid \<Rightarrow> 'row \<Rightarrow> bool) \<Rightarrow> 'row \<Rightarrow> bool" where
  "rls (Authenticated uid) policy r = policy uid r"
| "rls Anon policy r = False"
| "rls Privileged policy r = True"

definition user_profiles_select_policy :: "uuid \<Rightarrow> user_profile \<Rightarrow> bool" where
  "user_profiles_select_policy uid r \<longleftrightarrow> uid = up_user_id r"

definition user_profiles_insert_policy :: "uuid \<Rightarrow> user_profile \<Rightarrow> bool" where
  "user_profiles_insert_policy uid r \<longleftrightarrow> uid = up_user_id r"

definition user_profiles_update_policy :: "uuid \<Rightarrow> user_profile \<Rightarrow> bool" where
  "user_profiles_update_policy uid r \<longleftrightarrow> uid = up_user_id r"

definition categories_select_policy :: "uuid \<Rightarrow> category \<Rightarrow> bool" where
  "categories_select_policy uid r \<longleftrightarrow> uid = cat_user_id r"

definition categories_insert_policy :: "uuid \<Rightarrow> category \<Rightarrow> bool" where
  "categories_insert_policy uid r \<longleftrightarrow> uid = cat_user_id r"

definition categories_update_policy :: "uuid \<Rightarrow> category \<Rightarrow> bool" where
  "categories_update_policy uid r \<longleftrightarrow> uid = cat_user_id r"

definition categories_delete_policy :: "uuid \<Rightarrow> category \<Rightarrow> bool" where
  "categories_delete_policy uid r \<longleftrightarrow>
     uid = cat_user_id r \<and> (is_default r = Some False \<or> is_default r = None)"

definition expenses_select_policy :: "uuid \<Rightarrow> expense \<Rightarrow> bool" where
  "expenses_select_policy uid r \<longleftrightarrow> uid = exp_user_id r"

definition expenses_insert_policy :: "uuid \<Rightarrow> expense \<Rightarrow> bool" where
  "expenses_insert_policy uid r \<longleftrightarrow> uid = exp_user_id r"

definition expenses_update_policy :: "uuid \<Rightarrow> expense \<Rightarrow> bool" where
  "expenses_update_policy uid r \<longleftrightarrow> uid = exp_user_id r"

definition expenses_delete_policy :: "uuid \<Rightarrow> expense \<Rightarrow> bool" where
  "expenses_delete_policy uid r \<longleftrightarrow> uid = exp_user_id r"

section \<open>Constraints and indexes\<close>

text \<open>The primary keys, the unique column and the partial unique index of the schema.\<close>

definition user_profiles_pkey :: "user_profile list \<Rightarrow> bool" where
  "user_profiles_pkey rows \<longleftrightarrow> distinct (map up_id rows)"

definition user_profiles_user_id_key :: "user_profile list \<Rightarrow> bool" where
  "user_profiles_user_id_key rows \<longleftrightarrow> distinct (map up_user_id rows)"

definition categories_pkey :: "category list \<Rightarrow> bool" where
  "categories_pkey rows \<longleftrightarrow> distinct (map cat_id rows)"

definition expenses_pkey :: "expense list \<Rightarrow> bool" where
  "expenses_pkey rows \<longleftrightarrow> distinct (map exp_id rows)"

text \<open>
  \<^verbatim>\<open>CREATE UNIQUE INDEX categories_user_default_unique_idx ON categories (user_id)
  WHERE is_default = true\<close>: among the rows whose flag is true, no two have the same owner.
\<close>

definition categories_user_default_unique_idx :: "category list \<Rightarrow> bool" where
  "categories_user_default_unique_idx rows \<longleftrightarrow>
     distinct (map cat_user_id (filter (\<lambda>c. is_default c = Some True) rows))"

text \<open>What the two indexes of the categories keep true of the table.\<close>

definition categories_inv :: "category list \<Rightarrow> bool" where
  "categories_inv rows \<longleftrightarrow> categories_pkey rows \<and> categories_user_default_unique_idx rows"

section \<open>Statements on categories\<close>

text \<open>
  The rows given to an \<^verbatim>\<open>INSERT\<close> are complete: the column defaults
  (\<^verbatim>\<open>gen_random_uuid()\<close>, \<^verbatim>\<open>now()\<close>) have been filled in by whoever builds the row.
  A row is checked against the insert policy, then entered into the primary key and into
  the partial unique index; the foreign key to \<^verbatim>\<open>auth.users\<close> is checked at the end of
  the statement.
\<close>

definition insert_category_row :: "caller \<Rightarrow> category \<Rightarrow> db \<Rightarrow> error + db" where
  "insert_category_row who r d =
     (if \<not> rls who categories_insert_policy r then Inl Insufficient_privilege
      else if cat_id r \<in> set (map cat_id (categories d))
        then Inl (Unique_violation ''categories_pkey'')
      else if is_default r = Some True
              \<and> (\<exists>c\<in>set (categories d). cat_user_id c = cat_user_id r \<and> is_default c = Some True)
        then Inl (Unique_violation ''categories_user_default_unique_idx'')
      else Inr (d\<lparr>categories := categories d @ [r]\<rparr>))"

fun insert_category_rows :: "caller \<Rightarrow> category list \<Rightarrow> db \<Rightarrow> error + db" where
  "insert_category_rows who [] d = Inr d"
| "insert_category_rows who (r # rs) d =
     (case insert_category_row who r d of
        Inl e \<Rightarrow> Inl e
      | Inr d' \<Rightarrow> insert_category_rows who rs d')"

definition insert_categories :: "caller \<Rightarrow> category list \<Rightarrow> db \<Rightarrow> error + db" where
  "insert_categories who rows d =
     (case insert_category_rows who rows d of
        Inl e \<Rightarrow> Inl e
      | Inr d' \<Rightarrow>
          if \<forall>r\<in>set rows. cat_user_id r \<in> set (auth_users d') then Inr d'
          else Inl (Foreign_key_violation ''fk_categories_user_id''))"

text \<open>
  \<^verbatim>\<open>UPDATE categories SET ... WHERE wh\<close>: \<open>upd\<close> gives the new row from the old one.
  The rows are those the select and update policies and the \<^verbatim>\<open>WHERE\<close> clause let
  through. Each new row is checked against the update policy and entered into the indexes
  against the other rows as they are at that moment. The foreign keys are checked at the
  end: a changed owner must exist, and a changed id must not leave an expense behind.
\<close>

definition update_category_row ::
  "caller \<Rightarrow> (category \<Rightarrow> category) \<Rightarrow> category \<Rightarrow> db \<Rightarrow> error + db" where
  "update_category_row who upd old d =
     (let new = upd old;
          others = filter (\<lambda>c. cat_id c \<noteq> cat_id old) (categories d)
      in if \<not> rls who categories_update_policy new then Inl Insufficient_privilege
         else if cat_id new \<in> set (map cat_id others)
           then Inl (Unique_violation ''categories_pkey'')
         else if is_default new = Some True
                 \<and> (\<exists>c\<in>set others. cat_user_id c = cat_user_id new \<and> is_default c = Some True)
           then Inl (Unique_violation ''categories_user_default_unique_idx'')
         else Inr (d\<lparr>categories :=
                      map (\<lambda>c. if cat_id c = cat_id old then new else c) (categories d)\<rparr>))"

fun update_category_rows ::
  "caller \<Rightarrow> (category \<Rightarrow> category) \<Rightarrow> category list \<Rightarrow> db \<Rightarrow> error + db" where
  "update_category_rows who upd [] d = Inr d"
| "update_category_rows who upd (old # rest) d =
     (case update_category_row who upd old d of
        Inl e \<Rightarrow> Inl e
      | Inr d' \<Rightarrow> update_category_rows who upd rest d')"

definition update_categories ::
  "caller \<Rightarrow> (category \<Rightarrow> bool) \<Rightarrow> (category \<Rightarrow> category) \<Rightarrow> db \<Rightarrow> error + db" where
  "update_categories who wh upd d =
     (let targets = filter (\<lambda>c. rls who categories_select_policy c
                              \<and> rls who categories_update_policy c \<and> wh c) (categories d)
      in case update_category_rows who upd targets d of
           Inl e \<Rightarrow> Inl e
         | Inr d' \<Rightarrow>
             if \<exists>c\<in>set targets. cat_user_id (upd c) \<noteq> cat_user_id c
                                \<and> cat_user_id (upd c) \<notin> set (auth_users d')
               then Inl (Foreign_key_violation ''fk_categories_user_id'')
             else if \<exists>c\<in>set targets. cat_id c \<notin> set (map cat_id (categories d'))
                                \<and> (\<exists>e\<in>set (expenses d'). category_id e = cat_id c)
               then Inl (Foreign_key_violation ''fk_expenses_category_id'')
             else Inr d')"

definition select_categories :: "caller \<Rightarrow> (category \<Rightarrow> bool) \<Rightarrow> db \<Rightarrow> category list" where
  "select_categories who wh d =
     filter (\<lambda>c. rls who categories_select_policy c \<and> wh c) (categories d)"

section \<open>Statements on expenses\<close>

text \<open>
  An expense row is checked against the insert policy and against
  \<^verbatim>\<open>CHECK (amount > 0)\<close>, then entered into the primary key; its two foreign keys are
  checked at the end of the statement. \<open>amount\<close> is the value as stored, a
  \<^verbatim>\<open>decimal(12,2)\<close>.
\<close>

definition insert_expense_row :: "caller \<Rightarrow> expense \<Rightarrow> db \<Rightarrow> error + db" where
  "insert_expense_row who r d =
     (if \<not> rls who expenses_insert_policy r then Inl Insufficient_privilege
      else if \<not> 0 < amount r then Inl (Check_violation ''expenses_amount_check'')
      else if exp_id r \<in> set (map exp_id (expenses d))
        then Inl (Unique_violation ''expenses_pkey'')
      else Inr (d\<lparr>expenses := expenses d @ [r]\<rparr>))"

fun insert_expense_rows :: "caller \<Rightarrow> expense list \<Rightarrow> db \<Rightarrow> error + db" where
  "insert_expense_rows who [] d = Inr d"
| "insert_expense_rows who (r # rs) d =
     (case insert_expense_row who r d of
        Inl e \<Rightarrow> Inl e
      | Inr d' \<Rightarrow> insert_expense_rows who rs d')"

definition insert_expenses :: "caller \<Rightarrow> expense list \<Rightarrow> db \<Rightarrow> error + db" where
  "insert_expenses who rows d =
     (case insert_expense_rows who rows d of
        Inl e \<Rightarrow> Inl e
      | Inr d' \<Rightarrow>
          if \<not> (\<forall>r\<in>set rows. exp_user_id r \<in> set (auth_users d'))
            then Inl (Foreign_key_violation ''fk_expenses_user_id'')
          else if \<not> (\<forall>r\<in>set rows. category_id r \<in> set (map cat_id (categories d')))
            then Inl (Foreign_key_violation ''fk_expenses_category_id'')
          else Inr d')"

definition update_expense_row ::
  "caller \<Rightarrow> (expense \<Rightarrow> expense) \<Rightarrow> expense \<Rightarrow> db \<Rightarrow> error + db" where
  "update_expense_row who upd old d =
     (let new = upd old;
          others = filter (\<lambda>e. exp_id e \<noteq> exp_id old) (expenses d)
      in if \<not> rls who expenses_update_policy new then Inl Insufficient_privilege
         else if \<not> 0 < amount new then Inl (Check_violation ''expenses_amount_check'')
         else if exp_id new \<in> set (map exp_id others)
           then Inl (Unique_violation ''expenses_pkey'')
         else Inr (d\<lparr>expenses :=
                      map (\<lambda>e. if exp_id e = exp_id old then new else e) (expenses d)\<rparr>))"

fun update_expense_rows ::
  "caller \<Rightarrow> (expense \<Rightarrow> expense) \<Rightarrow> expense list \<Rightarrow> db \<Rightarrow> error + db" where
  "update_expense_rows who upd [] d = Inr d"
| "update_expense_rows who upd (old # rest) d =
     (case update_expense_row who upd old d of
        Inl e \<Rightarrow> Inl e
      | Inr d' \<Rightarrow> update_expense_rows who upd rest d')"

definition update_expenses ::
  "caller \<Rightarrow> (expense \<Rightarrow> bool) \<Rightarrow> (expense \<Rightarrow> expense) \<Rightarrow> db \<Rightarrow> error + db" where
  "update_expenses who wh upd d =
     (let targets = filter (\<lambda>e. rls who expenses_select_policy e
                              \<and> rls who expenses_update_policy e \<and> wh e) (expenses d)
      in case update_expense_rows who upd targets d of
           Inl e \<Rightarrow> Inl e
         | Inr d' \<Rightarrow>
             if \<exists>e\<in>set targets. exp_user_id (upd e) \<noteq> exp_user_id e
                                \<and> exp_user_id (upd e) \<notin> set (auth_users d')
               then Inl (Foreign_key_violation ''fk_expenses_user_id'')
             else if \<exists>e\<in>set targets. category_id (upd e) \<noteq> category_id e
                                \<and> category_id (upd e) \<notin> set (map cat_id (categories d'))
               then Inl (Foreign_key_violation ''fk_expenses_category_id'')
             else Inr d')"

text \<open>No trigger and no foreign key hangs on the deletion of an expense.\<close>

definition delete_expenses :: "caller \<Rightarrow> (expense \<Rightarrow> bool) \<Rightarrow> db \<Rightarrow> error + db" where
  "delete_expenses who wh d =
     Inr (d\<lparr>expenses :=
             filter (\<lambda>e. \<not> (rls who expenses_select_policy e
                              \<and> rls who expenses_delete_policy e \<and> wh e)) (expenses d)\<rparr>)"

definition select_expenses :: "caller \<Rightarrow> (expense \<Rightarrow> bool) \<Rightarrow> db \<Rightarrow> expense list" where
  "select_expenses who wh d =
     filter (\<lambda>e. rls who expenses_select_policy e \<and> wh e) (expenses d)"

section \<open>Statements on profiles\<close>

definition insert_user_profile :: "caller \<Rightarrow> user_profile \<Rightarrow> db \<Rightarrow> error + db" where
  "insert_user_profile who r d =
     (if \<not> rls who user_profiles_insert_policy r then Inl Insufficient_privilege
      else if up_id r \<in> set (map up_id (user_profiles d))
        then Inl (Unique_violation ''user_profiles_pkey'')
      else if up_user_id r \<in> set (map up_user_id (user_profiles d))
        then Inl (Unique_violation ''user_profiles_user_id_key'')
      else if up_user_id r \<notin> set (auth_users d)
        then Inl (Foreign_key_violation ''fk_user_profiles_user_id'')
      else Inr (d\<lparr>user_profiles := user_profiles d @ [r]\<rparr>))"

text \<open>
  \<^verbatim>\<open>INSERT ... ON CONFLICT (user_id) DO NOTHING\<close>: a row whose owner already has a
  profile is dropped without an error; the other constraints stay as they are.
\<close>

definition insert_user_profile_on_conflict_do_nothing ::
  "caller \<Rightarrow> user_profile \<Rightarrow> db \<Rightarrow> error + db" where
  "insert_user_profile_on_conflict_do_nothing who r d =
     (if \<not> rls who user_profiles_insert_policy r then Inl Insufficient_privilege
      else if up_user_id r \<in> set (map up_user_id (user_profiles d)) then Inr d
      else if up_id r \<in> set (map up_id (user_profiles d))
        then Inl (Unique_violation ''user_profiles_pkey'')
      else if up_user_id r \<notin> set (auth_users d)
        then Inl (Foreign_key_violation ''fk_user_profiles_user_id'')
      else Inr (d\<lparr>user_profiles := user_profiles d @ [r]\<rparr>))"

definition update_user_profile_row ::
  "caller \<Rightarrow> (user_profile \<Rightarrow> user_profile) \<Rightarrow> user_profile \<Rightarrow> db \<Rightarrow> error + db" where
  "update_user_profile_row who upd old d =
     (let new = upd old;
          others = filter (\<lambda>p. up_id p \<noteq> up_id old) (user_profiles d)
      in if \<not> rls who user_profiles_update_policy new then Inl Insufficient_privilege
         else if up_id new \<in> set (map up_id others)
           then Inl (Unique_violation ''user_profiles_pkey'')
         else if up_user_id new \<in> set (map up_user_id others)
           then Inl (Unique_violation ''user_profiles_user_id_key'')
         else Inr (d\<lparr>user_profiles :=
                      map (\<lambda>p. if up_id p = up_id old then new else p) (user_profiles d)\<rparr>))"

fun update_user_profile_rows ::
  "caller \<Rightarrow> (user_profile \<Rightarrow> user_profile) \<Rightarrow> user_profile list \<Rightarrow> db \<Rightarrow> error + db" where
  "update_user_profile_rows who upd [] d = Inr d"
| "update_user_profile_rows who upd (old # rest) d =
     (case update_user_profile_row who upd old d of
        Inl e \<Rightarrow> Inl e
      | Inr d' \<Rightarrow> update_user_profile_rows who upd rest d')"

definition update_user_profiles ::
  "caller \<Rightarrow> (user_profile \<Rightarrow> bool) \<Rightarrow> (user_profile \<Rightarrow> user_profile) \<Rightarrow> db
   \<Rightarrow> error + db" where
  "update_user_profiles who wh upd d =
     (let targets = filter (\<lambda>p. rls who user_profiles_select_policy p
                              \<and> rls who user_profiles_update_policy p \<and> wh p)
                      (user_profiles d)
      in case update_user_profile_rows who upd targets d of
           Inl e \<Rightarrow> Inl e
         | Inr d' \<Rightarrow>
             if \<exists>p\<in>set targets. up_user_id (upd p) \<noteq> up_user_id p
                                \<and> up_user_id (upd p) \<notin> set (auth_users d')
               then Inl (Foreign_key_violation ''fk_user_profiles_user_id'')
             else Inr d')"

text \<open>
  The schema has no delete policy on \<^verbatim>\<open>user_profiles\<close>: under row level security a
  client's \<^verbatim>\<open>DELETE\<close> finds no row.
\<close>

definition no_policy :: "uuid \<Rightarrow> 'row \<Rightarrow> bool" where
  "no_policy uid r \<longleftrightarrow> False"

definition delete_user_profiles ::
  "caller \<Rightarrow> (user_profile \<Rightarrow> bool) \<Rightarrow> db \<Rightarrow> error + db" where
  "delete_user_profiles who wh d =
     Inr (d\<lparr>user_profiles :=
             filter (\<lambda>p. \<not> (rls who user_profiles_select_policy p
                              \<and> rls who no_policy p \<and> wh p)) (user_profiles d)\<rparr>)"

definition select_user_profiles ::
  "caller \<Rightarrow> (user_profile \<Rightarrow> bool) \<Rightarrow> db \<Rightarrow> user_profile list" where
  "select_user_profiles who wh d =
     filter (\<lambda>p. rls who user_profiles_select_policy p \<and> wh p) (user_profiles d)"

section \<open>Deleting categories\<close>

text \<open>
  The trigger function \<^verbatim>\<open>handle_category_deletion\<close>, run \<^verbatim>\<open>BEFORE DELETE\<close> for each
  row \<open>old\<close>. \<^verbatim>\<open>OLD.is_default = true\<close> is not true for a null flag. The \<^verbatim>\<open>SELECT ... LIMIT 1\<close>
  takes a row among those that match: the first one here. The function is
  \<^verbatim>\<open>SECURITY DEFINER\<close>, so its \<^verbatim>\<open>UPDATE expenses SET category_id = default_category_id
  WHERE category_id = OLD.id\<close>, which \<open>reassign_expense\<close> applies to a row, reaches every
  expense of the category.
\<close>

definition reassign_expense :: "uuid \<Rightarrow> uuid \<Rightarrow> expense \<Rightarrow> expense" where
  "reassign_expense old_id default_category_id e =
     (if category_id e = old_id then e\<lparr>category_id := default_category_id\<rparr> else e)"

definition handle_category_deletion :: "category \<Rightarrow> db \<Rightarrow> error + db" where
  "handle_category_deletion old d =
     (if is_default old = Some True
      then Inl (Raise_exception ''Cannot delete default category'')
      else
        (case find (\<lambda>c. cat_user_id c = cat_user_id old \<and> is_default c = Some True)
                (categories d) of
           Some dc \<Rightarrow>
             Inr (d\<lparr>expenses := map (reassign_expense (cat_id old) (cat_id dc)) (expenses d)\<rparr>)
         | None \<Rightarrow> Inr d))"

text \<open>
  The rows a \<^verbatim>\<open>DELETE\<close> has selected are processed one after the other: the trigger,
  then the removal of the row (rows are identified by their primary key). An exception in
  a trigger ends the whole statement.
\<close>

fun delete_category_rows :: "category list \<Rightarrow> db \<Rightarrow> error + db" where
  "delete_category_rows [] d = Inr d"
| "delete_category_rows (old # rest) d =
     (case handle_category_deletion old d of
        Inl e \<Rightarrow> Inl e
      | Inr d' \<Rightarrow>
          delete_category_rows rest
            (d'\<lparr>categories := filter (\<lambda>c. cat_id c \<noteq> cat_id old) (categories d')\<rparr>))"

text \<open>
  \<^verbatim>\<open>DELETE FROM categories WHERE wh\<close> run by \<open>who\<close>. The rows are those the select and
  delete policies and the \<^verbatim>\<open>WHERE\<close> clause let through; a row a policy hides is
  skipped without an error. At the end of the statement the action of
  \<^verbatim>\<open>fk_expenses_category_id ... ON DELETE CASCADE\<close> removes the expenses that still
  reference a deleted category.
\<close>

definition delete_categories :: "caller \<Rightarrow> (category \<Rightarrow> bool) \<Rightarrow> db \<Rightarrow> error + db" where
  "delete_categories who wh d =
     (let targets = filter (\<lambda>c. rls who categories_select_policy c
                              \<and> rls who categories_delete_policy c \<and> wh c) (categories d)
      in case delete_category_rows targets d of
           Inl e \<Rightarrow> Inl e
         | Inr d' \<Rightarrow>
             Inr (d'\<lparr>expenses :=
                      filter (\<lambda>e. category_id e \<notin> set (map cat_id targets)) (expenses d')\<rparr>))"

section \<open>Provisioning a new user\<close>

text \<open>
  A PL/pgSQL block \<^verbatim>\<open>BEGIN body EXCEPTION WHEN OTHERS THEN RAISE WARNING msg END\<close>: an
  error of the body is caught, what the body changed is undone, and a warning carrying
  the error is issued instead. The warnings are returned with the data.
\<close>

datatype warning = Warning string error

definition exception_when_others ::
  "string \<Rightarrow> (db \<Rightarrow> error + warning list \<times> db) \<Rightarrow> db \<Rightarrow> error + warning list \<times> db" where
  "exception_when_others msg body d =
     (case body d of
        Inl e \<Rightarrow> Inr ([Warning msg e], d)
      | Inr r \<Rightarrow> Inr r)"

text \<open>The starter set of \<^verbatim>\<open>create_default_categories_for_user\<close>: name, color, icon, flag.\<close>

definition default_category_values :: "(string \<times> string \<times> string \<times> bool) list" where
  "default_category_values =
     [(''General'', ''#6B7280'', ''folder'', True),
      (''Food & Dining'', ''#EF4444'', ''utensils'', False),
      (''Transportation'', ''#3B82F6'', ''car'', False),
      (''Shopping'', ''#8B5CF6'', ''shopping-bag'', False),
      (''Entertainment'', ''#10B981'', ''gamepad-2'', False),
      (''Bills & Utilities'', ''#F59E0B'', ''home'', False),
      (''Healthcare'', ''#EC4899'', ''heart'', False),
      (''Education'', ''#14B8A6'', ''book'', False)]"

text \<open>
  \<open>gen k\<close> is the value \<^verbatim>\<open>gen_random_uuid()\<close> gives for the \<open>k\<close>-th row of the
  statement, \<open>now\<close> the value of \<^verbatim>\<open>now()\<close>.
\<close>

definition starter_rows ::
  "(nat \<Rightarrow> uuid) \<Rightarrow> timestamptz \<Rightarrow> uuid \<Rightarrow> (string \<times> string \<times> string \<times> bool) list
   \<Rightarrow> category list" where
  "starter_rows gen now user_uuid vals =
     map (\<lambda>(k, n, c, i, dflt).
            \<lparr>cat_id = gen k, cat_user_id = user_uuid, name = n, color = c, icon = i,
             is_default = Some dflt, cat_created_at = Some now\<rparr>)
         (enumerate 0 vals)"

definition create_default_categories_for_user ::
  "(nat \<Rightarrow> uuid) \<Rightarrow> timestamptz \<Rightarrow> uuid \<Rightarrow> db \<Rightarrow> error + warning list \<times> db" where
  "create_default_categories_for_user gen now user_uuid d =
     exception_when_others ''Failed to create default categories for user''
       (\<lambda>d0. case insert_categories Privileged
                     (starter_rows gen now user_uuid default_category_values) d0 of
                Inl e \<Rightarrow> Inl e
              | Inr d1 \<Rightarrow> Inr ([], d1)) d"

text \<open>
  \<^verbatim>\<open>create_default_user_profile(user_uuid, currency_code, currency_symbol)\<close>; \<open>new_id\<close>
  and \<open>now\<close> are the values the defaults of \<^verbatim>\<open>id\<close> and \<^verbatim>\<open>created_at\<close> give.
\<close>

definition create_default_user_profile ::
  "uuid \<Rightarrow> timestamptz \<Rightarrow> uuid \<Rightarrow> string \<Rightarrow> string \<Rightarrow> db \<Rightarrow> error + warning list \<times> db" where
  "create_default_user_profile new_id now user_uuid currency_code_arg currency_symbol d =
     exception_when_others ''Failed to create default profile for user''
       (\<lambda>d0. case insert_user_profile_on_conflict_do_nothing Privileged
                     \<lparr>up_id = new_id, up_user_id = user_uuid,
                      currency_code = currency_code_arg, currency = currency_symbol,
                      up_created_at = Some now\<rparr> d0 of
                Inl e \<Rightarrow> Inl e
              | Inr d1 \<Rightarrow> Inr ([], d1)) d"

text \<open>
  The trigger function \<^verbatim>\<open>handle_new_user\<close> for the new row \<open>new_user\<close> of
  \<^verbatim>\<open>auth.users\<close>. It calls \<^verbatim>\<open>create_default_user_profile(NEW.id)\<close>, so the currency
  arguments take their defaults \<^verbatim>\<open>'USD'\<close> and \<^verbatim>\<open>'$'\<close>.
\<close>

definition handle_new_user ::
  "uuid \<Rightarrow> (nat \<Rightarrow> uuid) \<Rightarrow> timestamptz \<Rightarrow> uuid \<Rightarrow> db \<Rightarrow> error + warning list \<times> db" where
  "handle_new_user profile_id gen now new_user d =
     exception_when_others ''Failed to set up new user''
       (\<lambda>d0. case create_default_user_profile profile_id now new_user ''USD'' ''$'' d0 of
                Inl e \<Rightarrow> Inl e
              | Inr (w1, d1) \<Rightarrow>
                  (case create_default_categories_for_user gen now new_user d1 of
                     Inl e \<Rightarrow> Inl e
                   | Inr (w2, d2) \<Rightarrow> Inr (w1 @ w2, d2))) d"

text \<open>
  The creation of an identity: the row enters \<^verbatim>\<open>auth.users\<close> and the trigger
  \<^verbatim>\<open>on_auth_user_created\<close> runs \<^verbatim>\<open>AFTER INSERT\<close>, in the same statement. An error the
  trigger lets out fails the creation.
\<close>

definition insert_auth_user ::
  "uuid \<Rightarrow> (nat \<Rightarrow> uuid) \<Rightarrow> timestamptz \<Rightarrow> uuid \<Rightarrow> db \<Rightarrow> error + warning list \<times> db" where
  "insert_auth_user profile_id gen now new_user d =
     (if new_user \<in> set (auth_users d) then Inl (Unique_violation ''users_pkey'')
      else handle_new_user profile_id gen now new_user
             (d\<lparr>auth_users := auth_users d @ [new_user]\<rparr>))"

section \<open>The client hooks\<close>

text \<open>
  The hooks of \<^verbatim>\<open>useCategories.ts\<close> and \<^verbatim>\<open>useExpenses.ts\<close>. \<open>user\<close> is the signed-in
  user of \<^verbatim>\<open>useAuth\<close>; the client library sends that user's token, or none. A hook works
  on its local list and on the stored data, and ends normally, after logging an error it
  caught, or by throwing one.
\<close>

datatype outcome = Done | Logged error | Thrown error

definition session :: "uuid option \<Rightarrow> caller" where
  "session user = (case user of None \<Rightarrow> Anon | Some uid \<Rightarrow> Authenticated uid)"

text \<open>
  \<^verbatim>\<open>.order('is_default', {ascending: false}).order('created_at', {ascending: true})\<close>:
  descending puts the null flags first, ascending the null timestamps last.
\<close>

definition order_categories :: "category list \<Rightarrow> category list" where
  "order_categories rows =
     sort_key (\<lambda>c. case is_default c of None \<Rightarrow> 0 | Some True \<Rightarrow> 1 | Some False \<Rightarrow> (2::nat))
       (sort_key (\<lambda>c. case cat_created_at c of None \<Rightarrow> 1 | Some t \<Rightarrow> (0::nat))
          (sort_key (\<lambda>c. case cat_created_at c of None \<Rightarrow> 0 | Some t \<Rightarrow> t) rows))"

definition defaultCategories :: "(string \<times> string \<times> string \<times> bool) list" where
  "defaultCategories =
     [(''General'', ''#6B7280'', ''folder'', True),
      (''Food & Dining'', ''#EF4444'', ''utensils'', False),
      (''Transportation'', ''#3B82F6'', ''car'', False),
      (''Shopping'', ''#8B5CF6'', ''shopping-bag'', False),
      (''Entertainment'', ''#10B981'', ''gamepad-2'', False),
      (''Bills & Utilities'', ''#F59E0B'', ''home'', False)]"

definition createDefaultCategories ::
  "uuid option \<Rightarrow> (nat \<Rightarrow> uuid) \<Rightarrow> timestamptz \<Rightarrow> category list \<times> db
   \<Rightarrow> outcome \<times> category list \<times> db" where
  "createDefaultCategories user gen now st =
     (case user of
        None \<Rightarrow> (Done, st)
      | Some uid \<Rightarrow>
          (let rows = starter_rows gen now uid defaultCategories
           in case insert_categories (Authenticated uid) rows (snd st) of
                Inl e \<Rightarrow> (Logged e, st)
              | Inr d' \<Rightarrow> (Done, rows, d')))"

definition fetchCategories ::
  "uuid option \<Rightarrow> (nat \<Rightarrow> uuid) \<Rightarrow> timestamptz \<Rightarrow> category list \<times> db
   \<Rightarrow> outcome \<times> category list \<times> db" where
  "fetchCategories user gen now st =
     (case user of
        None \<Rightarrow> (Done, st)
      | Some uid \<Rightarrow>
          (let data = order_categories
                        (select_categories (Authenticated uid) (\<lambda>c. cat_user_id c = uid) (snd st))
           in if length data = 0 then createDefaultCategories user gen now st
              else (Done, data, snd st)))"

text \<open>
  \<^verbatim>\<open>addCategory\<close>: \<open>categoryData\<close> has the name, the color and the icon; the object
  sent puts \<^verbatim>\<open>user_id\<close> and \<^verbatim>\<open>is_default: false\<close> after the spread of the data.
\<close>

record category_data =
  cd_name :: string
  cd_color :: string
  cd_icon :: string

definition addCategory ::
  "uuid option \<Rightarrow> uuid \<Rightarrow> timestamptz \<Rightarrow> category_data \<Rightarrow> category list \<times> db
   \<Rightarrow> outcome \<times> category list \<times> db" where
  "addCategory user new_id now categoryData st =
     (case user of
        None \<Rightarrow> (Done, st)
      | Some uid \<Rightarrow>
          (let r = \<lparr>cat_id = new_id, cat_user_id = uid, name = cd_name categoryData,
                    color = cd_color categoryData, icon = cd_icon categoryData,
                    is_default = Some False, cat_created_at = Some now\<rparr>
           in case insert_categories (Authenticated uid) [r] (snd st) of
                Inl e \<Rightarrow> (Logged e, st)
              | Inr d' \<Rightarrow> (Done, fst st @ [r], d')))"




text \<open>\<^verbatim>\<open>deleteCategory\<close>: the local list drops the category when the request reports no error.\<close>

definition deleteCategory ::
  "uuid option \<Rightarrow> uuid \<Rightarrow> category list \<times> db \<Rightarrow> outcome \<times> category list \<times> db" where
  "deleteCategory user categoryId st =
     (case user of
        None \<Rightarrow> (Done, st)
      | Some uid \<Rightarrow>
          (case delete_categories (Authenticated uid)
                  (\<lambda>c. cat_id c = categoryId \<and> cat_user_id c = uid) (snd st) of
             Inl e \<Rightarrow> (Thrown e, st)
           | Inr d' \<Rightarrow> (Done, filter (\<lambda>c. cat_id c \<noteq> categoryId) (fst st), d')))"


text \<open>
  \<^verbatim>\<open>updateExpense\<close> and \<^verbatim>\<open>deleteExpense\<close> of \<^verbatim>\<open>useExpenses.ts\<close> filter on the id
  alone and do not look at \<open>user\<close>; \<open>exps\<close> is the hook's local list.
\<close>

definition updateExpense ::
  "uuid option \<Rightarrow> expense \<Rightarrow> expense list \<times> db \<Rightarrow> outcome \<times> expense list \<times> db" where
  "updateExpense user ex st =
     (case update_expenses (session user) (\<lambda>e. exp_id e = exp_id ex)
             (\<lambda>e. e\<lparr>category_id := category_id ex, amount := amount ex,
                     description := description ex, date := date ex\<rparr>) (snd st) of
        Inl e \<Rightarrow> (Logged e, st)
      | Inr d' \<Rightarrow> (Done, map (\<lambda>e. if exp_id e = exp_id ex then ex else e) (fst st), d'))"

definition deleteExpense ::
  "uuid option \<Rightarrow> uuid \<Rightarrow> expense list \<times> db \<Rightarrow> outcome \<times> expense list \<times> db" where
  "deleteExpense user expenseId st =
     (case delete_expenses (session user) (\<lambda>e. exp_id e = expenseId) (snd st) of
        Inl e \<Rightarrow> (Logged e, st)
      | Inr d' \<Rightarrow> (Done, filter (\<lambda>e. exp_id e \<noteq> expenseId) (fst st), d'))"

section \<open>Aggregation in the views\<close>

text \<open>
  The sums and shares of \<^verbatim>\<open>PieChart.tsx\<close>, \<^verbatim>\<open>ExpenseSummary.tsx\<close> and \<^verbatim>\<open>App.tsx\<close>.
  They work on the lists the hooks hold. Amounts are exact rationals here, as the stored
  \<^verbatim>\<open>decimal(12,2)\<close> values are; the views compute with the floating-point numbers of
  JavaScript, whose rounding is left out.
\<close>

definition startsWith :: "string \<Rightarrow> string \<Rightarrow> bool" where
  "startsWith s p \<longleftrightarrow> take (length p) s = p"

text \<open>\<^verbatim>\<open>xs.reduce((sum, x) => sum + x.amount, 0)\<close>.\<close>

definition reduce_amount :: "('a \<Rightarrow> rat) \<Rightarrow> 'a list \<Rightarrow> rat" where
  "reduce_amount f xs = foldl (\<lambda>sum x. sum + f x) 0 xs"

text \<open>\<^verbatim>\<open>totalExpenses\<close> and \<^verbatim>\<open>thisMonthExpenses\<close> of the main view; \<open>thisMonth\<close> is
  \<^verbatim>\<open>new Date().toISOString().substring(0, 7)\<close>.\<close>

definition totalExpenses :: "expense list \<Rightarrow> rat" where
  "totalExpenses exps = reduce_amount amount exps"





text \<open>
  The chart data of \<^verbatim>\<open>PieChart\<close>. The component builds it three times in the same way,
  from the expenses of the selected month, of the selected date, and from all of them:
  one entry per category with the sum of its expenses, the entries with a positive sum
  kept, each share taken against the sum of the kept entries, the entries sorted by
  \<^verbatim>\<open>(a, b) => b.amount - a.amount\<close>.
\<close>

record chart_data =
  cd_category :: category
  cd_amount :: rat
  cd_percentage :: rat

definition chart_entries :: "category list \<Rightarrow> expense list \<Rightarrow> chart_data list" where
  "chart_entries cats exps =
     filter (\<lambda>data. cd_amount data > 0)
       (map (\<lambda>c. \<lparr>cd_category = c,
                   cd_amount = reduce_amount amount (filter (\<lambda>e. category_id e = cat_id c) exps),
                   cd_percentage = 0\<rparr>) cats)"

definition chart_total :: "category list \<Rightarrow> expense list \<Rightarrow> rat" where
  "chart_total cats exps = reduce_amount cd_amount (chart_entries cats exps)"

definition chartData :: "category list \<Rightarrow> expense list \<Rightarrow> chart_data list" where
  "chartData cats exps =
     sort_key (\<lambda>data. - cd_amount data)
       (map (\<lambda>data. data\<lparr>cd_percentage := cd_amount data / chart_total cats exps * 100\<rparr>)
          (chart_entries cats exps))"

definition selectedMonthChartData ::
  "string \<Rightarrow> category list \<Rightarrow> expense list \<Rightarrow> chart_data list" where
  "selectedMonthChartData selectedMonth cats exps =
     chartData cats (filter (\<lambda>e. startsWith (date e) selectedMonth) exps)"

definition selectedDateChartData ::
  "string \<Rightarrow> category list \<Rightarrow> expense list \<Rightarrow> chart_data list" where
  "selectedDateChartData selectedDate cats exps =
     chartData cats (filter (\<lambda>e. date e = selectedDate) exps)"

definition overallChartData :: "category list \<Rightarrow> expense list \<Rightarrow> chart_data list" where
  "overallChartData cats exps = chartData cats exps"

section \<open>Example data\<close>

text \<open>A user with the categories General (the default) and Food, and one expense of 12.50
  on Food.\<close>

definition general_cat :: category where
  "general_cat = \<lparr>cat_id = 10, cat_user_id = 1, name = ''General'', color = ''#6B7280'',
     icon = ''folder'', is_default = Some True, cat_created_at = Some 0\<rparr>"

definition food_cat :: category where
  "food_cat = \<lparr>cat_id = 11, cat_user_id = 1, name = ''Food'', color = ''#EF4444'',
     icon = ''utensils'', is_default = Some False, cat_created_at = Some 1\<rparr>"

definition lunch_expense :: expense where
  "lunch_expense = \<lparr>exp_id = 100, exp_user_id = 1, category_id = 11, amount = 25 / 2,
     description = ''Lunch'', date = ''2025-06-12'', exp_created_at = Some 2\<rparr>"

definition scenario_db :: db where
  "scenario_db = \<lparr>auth_users = [1], user_profiles = [],
     categories = [general_cat, food_cat], expenses = [lunch_expense]\<rparr>"

text \<open>The same user without the default category.\<close>

definition no_default_db :: db where
  "no_default_db = \<lparr>auth_users = [1], user_profiles = [],
     categories = [food_cat], expenses = [lunch_expense]\<rparr>"

text \<open>A new user and nothing else.\<close>

definition fresh_db :: db where
  "fresh_db = \<lparr>auth_users = [1], user_profiles = [], categories = [], expenses = []\<rparr>"

text \<open>The first user with a profile: the ids 50 and 10 are taken.\<close>

definition taken_db :: db where
  "taken_db = \<lparr>auth_users = [1],
     user_profiles = [\<lparr>up_id = 50, up_user_id = 1, currency_code = ''USD'', currency = ''$'',
                       up_created_at = Some 0\<rparr>],
     categories = [general_cat, food_cat], expenses = [lunch_expense]\<rparr>"




text \<open>A second user, who records an expense on the first user's category Food.\<close>

definition guest_expense :: expense where
  "guest_expense = \<lparr>exp_id = 200, exp_user_id = 2, category_id = 11, amount = 5,
     description = ''Snack'', date = ''2025-06-13'', exp_created_at = Some 6\<rparr>"

definition two_users_db :: db where
  "two_users_db = \<lparr>auth_users = [1, 2], user_profiles = [],
     categories = [general_cat, food_cat], expenses = [lunch_expense]\<rparr>"

definition shared_db :: db where
  "shared_db = \<lparr>auth_users = [1, 2], user_profiles = [],
     categories = [general_cat, food_cat], expenses = [lunch_expense, guest_expense]\<rparr>"

section \<open>Auxiliary facts\<close>

lemma filter_key_single:
  "distinct (map f xs) \<Longrightarrow> x \<in> set xs \<Longrightarrow> filter (\<lambda>y. f y = f x) xs = [x]"
proof (induction xs)
  case Nil
  then show ?case by simp
next
  case (Cons a xs)
  show ?case
  proof (cases "a = x")
    case True
    with Cons.prems have "f x \<notin> f ` set xs" by simp
    then have "\<forall>y\<in>set xs. f y \<noteq> f x" by (metis imageI)
    then have "filter (\<lambda>y. f y = f x) xs = []" by (simp add: filter_empty_conv)
    with True show ?thesis by simp
  next
    case False
    with Cons.prems have "x \<in> set xs" and "f a \<noteq> f x" by auto
    with Cons show ?thesis by simp
  qed
qed

lemma filter_key_single_conj:
  assumes "distinct (map f xs)" and "x \<in> set xs" and "P x"
  shows "filter (\<lambda>y. P y \<and> f y = f x) xs = [x]"
proof -
  have "filter (\<lambda>y. P y \<and> f y = f x) xs = filter P (filter (\<lambda>y. f y = f x) xs)"
    by (simp add: conj_commute)
  with assms show ?thesis by (simp add: filter_key_single)
qed

lemma filter_key_none_conj:
  assumes "distinct (map f xs)" and "x \<in> set xs" and "\<not> P x"
  shows "filter (\<lambda>y. P y \<and> f y = f x) xs = []"
proof -
  have "filter (\<lambda>y. P y \<and> f y = f x) xs = filter P (filter (\<lambda>y. f y = f x) xs)"
    by (simp add: conj_commute)
  with assms show ?thesis by (simp add: filter_key_single)
qed

lemma delete_category_rows_default:
  "\<exists>c\<in>set ts. is_default c = Some True \<Longrightarrow>
   delete_category_rows ts d = Inl (Raise_exception ''Cannot delete default category'')"
proof (induction ts arbitrary: d)
  case Nil
  then show ?case by simp
next
  case (Cons t ts)
  show ?case
  proof (cases "is_default t = Some True")
    case True
    then show ?thesis by (simp add: handle_category_deletion_def)
  next
    case False
    with Cons.prems have "\<exists>c\<in>set ts. is_default c = Some True" by auto
    from Cons.IH[OF this] False show ?thesis
      by (simp add: handle_category_deletion_def split: option.splits)
  qed
qed

lemma db_expenses_filter_True: "d\<lparr>expenses := filter (\<lambda>e. True) (expenses d)\<rparr> = (d::db)"
  by simp

lemma delete_categories_no_target:
  assumes "filter (\<lambda>c. rls who categories_select_policy c
                     \<and> rls who categories_delete_policy c \<and> wh c) (categories d) = []"
  shows "delete_categories who wh d = Inr d"
  using assms by (simp add: delete_categories_def)

lemma filter_unique_key:
  assumes "distinct (map f xs)" and "x \<in> set xs" and "\<And>y. Q y \<Longrightarrow> f y = f x"
  shows "filter Q xs = (if Q x then [x] else [])"
proof -
  have "filter Q xs = filter (\<lambda>y. Q y \<and> f y = f x) xs"
    using assms(3) by (intro filter_cong) auto
  with assms(1,2) show ?thesis
    by (simp add: filter_key_single_conj filter_key_none_conj)
qed

lemma distinct_map_eq:
  "distinct (map f xs) \<Longrightarrow> x \<in> set xs \<Longrightarrow> y \<in> set xs \<Longrightarrow> f x = f y \<Longrightarrow> x = y"
  by (meson distinct_map inj_onD)

lemma find_default:
  assumes "categories_user_default_unique_idx cats"
    and "D \<in> set cats" and "is_default D = Some True"
  shows "find (\<lambda>c. cat_user_id c = cat_user_id D \<and> is_default c = Some True) cats = Some D"
proof (cases "find (\<lambda>c. cat_user_id c = cat_user_id D \<and> is_default c = Some True) cats")
  case None
  with assms(2,3) show ?thesis by (auto simp: find_None_iff)
next
  case (Some x)
  then have x: "x \<in> set cats" "cat_user_id x = cat_user_id D" "is_default x = Some True"
    by (auto simp: find_Some_iff)
  have "x = D"
    using assms x
    by (intro distinct_map_eq[of cat_user_id "filter (\<lambda>c. is_default c = Some True) cats"])
       (simp_all add: categories_user_default_unique_idx_def)
  with Some show ?thesis by simp
qed

lemma find_no_default:
  assumes "\<forall>c\<in>set cats. cat_user_id c = u \<longrightarrow> is_default c \<noteq> Some True"
  shows "find (\<lambda>c. cat_user_id c = u \<and> is_default c = Some True) cats = None"
  using assms by (auto simp: find_None_iff)

lemma client_delete_targets:
  assumes "categories_pkey (categories d)" and "C \<in> set (categories d)"
  shows "filter (\<lambda>c. categories_select_policy uid c \<and> categories_delete_policy uid c
                     \<and> cat_id c = cat_id C \<and> cat_user_id c = uid) (categories d)
         = (if cat_user_id C = uid \<and> is_default C \<noteq> Some True then [C] else [])"
proof -
  let ?Q = "\<lambda>c. categories_select_policy uid c \<and> categories_delete_policy uid c
                     \<and> cat_id c = cat_id C \<and> cat_user_id c = uid"
  have "distinct (map cat_id (categories d))"
    using assms(1) by (simp add: categories_pkey_def)
  then have "filter ?Q (categories d) = (if ?Q C then [C] else [])"
    using assms(2) by (rule filter_unique_key) simp
  moreover have "?Q C \<longleftrightarrow> cat_user_id C = uid \<and> is_default C \<noteq> Some True"
    by (cases "is_default C")
       (auto simp: categories_select_policy_def categories_delete_policy_def)
  ultimately show ?thesis by simp
qed


lemmas scenario_defs = scenario_db_def no_default_db_def general_cat_def food_cat_def lunch_expense_def

lemmas delete_eval = deleteCategory_def delete_categories_def handle_category_deletion_def
  reassign_expense_def categories_select_policy_def categories_delete_policy_def exec_def

lemma handle_category_deletion_categories:
  "handle_category_deletion old d = Inr d' \<Longrightarrow> categories d' = categories d"
  by (auto simp: handle_category_deletion_def split: if_splits option.splits)

lemma delete_category_rows_categories:
  "delete_category_rows ts d = Inr d'
   \<Longrightarrow> categories d' = filter (\<lambda>c. cat_id c \<notin> set (map cat_id ts)) (categories d)"
proof (induction ts arbitrary: d)
  case Nil
  then show ?case by simp
next
  case (Cons t ts)
  from Cons.prems obtain d1 where h: "handle_category_deletion t d = Inr d1"
    and r: "delete_category_rows ts
              (d1\<lparr>categories := filter (\<lambda>c. cat_id c \<noteq> cat_id t) (categories d1)\<rparr>) = Inr d'"
    by (auto split: sum.splits)
  from Cons.IH[OF r] handle_category_deletion_categories[OF h]
  show ?case by (auto intro: filter_cong)
qed

lemmas statement_eval = insert_categories_def insert_category_row_def update_categories_def
  update_category_row_def categories_insert_policy_def categories_update_policy_def
  categories_inv_def categories_pkey_def categories_user_default_unique_idx_def

section \<open>The default flag under inserts, updates and deletes\<close>


lemma replace_by_key:
  assumes "distinct (map f (xs @ x # ys))"
  shows "filter (\<lambda>y. f y \<noteq> f x) (xs @ x # ys) = xs @ ys"
    and "map (\<lambda>y. if f y = f x then n else y) (xs @ x # ys) = xs @ n # ys"
proof -
  from assms have a: "\<forall>y\<in>set xs. f y \<noteq> f x" and b: "\<forall>y\<in>set ys. f y \<noteq> f x"
    by (auto simp: image_iff)
  from a b show "filter (\<lambda>y. f y \<noteq> f x) (xs @ x # ys) = xs @ ys"
    by (simp add: filter_id_conv)
  from a b show "map (\<lambda>y. if f y = f x then n else y) (xs @ x # ys) = xs @ n # ys"
    by (simp add: map_idI)
qed

lemma default_idx_remove:
  assumes "categories_user_default_unique_idx (xs @ x # ys)"
  shows "categories_user_default_unique_idx (xs @ ys)"
  using assms
  by (cases "is_default x = Some True")
     (auto simp: categories_user_default_unique_idx_def)

lemma default_idx_insert:
  assumes "categories_user_default_unique_idx (xs @ ys)"
    and "is_default n = Some True \<longrightarrow>
           (\<forall>c\<in>set (xs @ ys). cat_user_id c = cat_user_id n \<longrightarrow> is_default c \<noteq> Some True)"
  shows "categories_user_default_unique_idx (xs @ n # ys)"
  using assms
  by (cases "is_default n = Some True")
     (auto simp: categories_user_default_unique_idx_def)

lemma insert_category_row_inv:
  assumes "categories_inv (categories d)" and "insert_category_row who r d = Inr d'"
  shows "categories_inv (categories d')"
  using assms
  by (auto simp: insert_category_row_def categories_inv_def categories_pkey_def
        categories_user_default_unique_idx_def split: if_splits)

lemma insert_category_rows_inv:
  "categories_inv (categories d) \<Longrightarrow> insert_category_rows who rows d = Inr d'
   \<Longrightarrow> categories_inv (categories d')"
proof (induction rows arbitrary: d)
  case Nil
  then show ?case by simp
next
  case (Cons r rows)
  then show ?case
    by (auto split: sum.splits dest: insert_category_row_inv)
qed

lemma insert_categories_inv:
  "categories_inv (categories d) \<Longrightarrow> insert_categories who rows d = Inr d'
   \<Longrightarrow> categories_inv (categories d')"
  by (auto simp: insert_categories_def split: sum.splits if_splits dest: insert_category_rows_inv)

lemma update_category_row_inv:
  assumes inv: "categories_inv (categories d)" and upd: "update_category_row who upd old d = Inr d'"
  shows "categories_inv (categories d')"
proof (cases "cat_id old \<in> set (map cat_id (categories d))")
  case False
  then have "\<forall>c\<in>set (categories d). cat_id c \<noteq> cat_id old"
    by (metis image_eqI image_set)
  then have "map (\<lambda>c. if cat_id c = cat_id old then upd old else c) (categories d) = categories d"
    by (simp add: map_idI)
  with upd inv show ?thesis
    by (auto simp: update_category_row_def Let_def split: if_splits)
next
  case True
  then obtain o' where o': "o' \<in> set (categories d)" "cat_id o' = cat_id old" by auto
  then obtain xs ys where split: "categories d = xs @ o' # ys"
    by (meson split_list)
  have dist: "distinct (map cat_id (xs @ o' # ys))"
    using inv split by (simp add: categories_inv_def categories_pkey_def)
  have oth: "filter (\<lambda>c. cat_id c \<noteq> cat_id old) (categories d) = xs @ ys"
    using replace_by_key(1)[OF dist] split o'(2) by simp
  have new: "map (\<lambda>c. if cat_id c = cat_id old then upd old else c) (categories d)
             = xs @ upd old # ys"
    using replace_by_key(2)[OF dist] split o'(2) by simp
  from upd have res: "categories d' = xs @ upd old # ys"
    and pk: "cat_id (upd old) \<notin> set (map cat_id (xs @ ys))"
    and ud: "\<not> (is_default (upd old) = Some True
              \<and> (\<exists>c\<in>set (xs @ ys). cat_user_id c = cat_user_id (upd old) \<and> is_default c = Some True))"
    by (auto simp: update_category_row_def Let_def oth new split: if_splits)
  have "categories_pkey (xs @ upd old # ys)"
    using dist pk by (auto simp: categories_pkey_def)
  moreover have "categories_user_default_unique_idx (xs @ ys)"
    using inv split by (auto simp: categories_inv_def dest: default_idx_remove)
  then have "categories_user_default_unique_idx (xs @ upd old # ys)"
    using ud by (intro default_idx_insert) auto
  ultimately show ?thesis by (simp add: res categories_inv_def)
qed

lemma update_category_rows_inv:
  "categories_inv (categories d) \<Longrightarrow> update_category_rows who upd ts d = Inr d'
   \<Longrightarrow> categories_inv (categories d')"
proof (induction ts arbitrary: d)
  case Nil
  then show ?case by simp
next
  case (Cons t ts)
  then show ?case
    by (auto split: sum.splits dest: update_category_row_inv)
qed

lemma update_categories_inv:
  "categories_inv (categories d) \<Longrightarrow> update_categories who wh upd d = Inr d'
   \<Longrightarrow> categories_inv (categories d')"
  by (auto simp: update_categories_def Let_def split: sum.splits if_splits
        dest: update_category_rows_inv)

lemma categories_inv_filter: "categories_inv rows \<Longrightarrow> categories_inv (filter P rows)"
proof -
  have "filter (\<lambda>c. is_default c = Some True) (filter P rows)
        = filter P (filter (\<lambda>c. is_default c = Some True) rows)"
    by (simp add: conj_commute)
  then show "categories_inv rows \<Longrightarrow> categories_inv (filter P rows)"
    by (simp add: categories_inv_def categories_pkey_def categories_user_default_unique_idx_def
          distinct_map_filter del: filter_filter)
qed

lemma delete_categories_inv:
  assumes "categories_inv (categories d)" and "delete_categories who wh d = Inr d'"
  shows "categories_inv (categories d')"
proof -
  from assms(2) obtain ts d1 where "delete_category_rows ts d = Inr d1"
    and "categories d' = categories d1"
    by (auto simp: delete_categories_def Let_def split: sum.splits)
  with delete_category_rows_categories[of ts d d1] assms(1) show ?thesis
    by (simp add: categories_inv_filter)
qed


lemma rls_update_policy_flag:
  "rls who categories_update_policy (c\<lparr>is_default := x\<rparr>) = rls who categories_update_policy c"
  by (cases who) (simp_all add: categories_update_policy_def)

lemma insert_second_default_fails:
  assumes "rls who categories_insert_policy r" and "is_default r = Some True"
    and "\<exists>c\<in>set (categories d). cat_user_id c = cat_user_id r \<and> is_default c = Some True"
  shows "insert_categories who [r] d
         = Inl (Unique_violation (if cat_id r \<in> set (map cat_id (categories d))
                                  then ''categories_pkey''
                                  else ''categories_user_default_unique_idx''))"
  using assms by (simp add: insert_categories_def insert_category_row_def)

lemma update_second_default_fails:
  assumes inv: "categories_inv (categories d)"
    and C: "C \<in> set (categories d)"
    and sel: "rls who categories_select_policy C" and pol: "rls who categories_update_policy C"
    and nd: "is_default C \<noteq> Some True"
    and ex: "\<exists>c\<in>set (categories d). cat_user_id c = cat_user_id C \<and> is_default c = Some True"
  shows "update_categories who (\<lambda>c. cat_id c = cat_id C) (\<lambda>c. c\<lparr>is_default := Some True\<rparr>) d
         = Inl (Unique_violation ''categories_user_default_unique_idx'')"
proof -
  let ?Q = "\<lambda>c. rls who categories_select_policy c \<and> rls who categories_update_policy c
                \<and> cat_id c = cat_id C"
  have dist: "distinct (map cat_id (categories d))"
    using inv by (simp add: categories_inv_def categories_pkey_def)
  then have "filter ?Q (categories d) = (if ?Q C then [C] else [])"
    using C by (rule filter_unique_key) simp
  then have tgt: "filter ?Q (categories d) = [C]"
    using sel pol by simp
  from ex obtain D where D: "D \<in> set (categories d)" "cat_user_id D = cat_user_id C"
    "is_default D = Some True" by auto
  with nd have "D \<noteq> C" by auto
  then have "cat_id D \<noteq> cat_id C"
    using dist C D(1) distinct_map_eq[of cat_id "categories d" D C] by auto
  with D have other: "\<exists>c\<in>set (filter (\<lambda>c. cat_id c \<noteq> cat_id C) (categories d)).
                       cat_user_id c = cat_user_id C \<and> is_default c = Some True"
    by auto
  have pk: "cat_id C \<notin> set (map cat_id (filter (\<lambda>c. cat_id c \<noteq> cat_id C) (categories d)))"
    by auto
  have row: "update_category_row who (\<lambda>c. c\<lparr>is_default := Some True\<rparr>) C d
             = Inl (Unique_violation ''categories_user_default_unique_idx'')"
    using pol other pk
    by (simp add: update_category_row_def Let_def rls_update_policy_flag)
  show ?thesis
    by (simp add: update_categories_def tgt row)
qed

text \<open>
  Claim C1, as amended. In stored data that satisfy the primary key of the categories and
  the partial unique index (at most one category with a true flag per owner), every
  \<^verbatim>\<open>INSERT\<close>, \<^verbatim>\<open>UPDATE\<close> and \<^verbatim>\<open>DELETE\<close> on the categories, by any caller and with any
  rows, condition and new values, either fails or leaves data that satisfy both again. An
  insert of a row with a true flag for an owner who has one fails with a unique violation,
  and so does the update that sets the flag of another category of that owner.
\<close>

theorem at_most_one_default_preserved:
  assumes "categories_inv (categories d)"
  shows "(\<forall>d'. insert_categories who rows d = Inr d' \<longrightarrow> categories_inv (categories d'))
       \<and> (\<forall>d'. update_categories who wh upd d = Inr d' \<longrightarrow> categories_inv (categories d'))
       \<and> (\<forall>d'. delete_categories who wh d = Inr d' \<longrightarrow> categories_inv (categories d'))
       \<and> (rls who categories_insert_policy r \<and> is_default r = Some True
            \<and> (\<exists>c\<in>set (categories d). cat_user_id c = cat_user_id r \<and> is_default c = Some True)
          \<longrightarrow> insert_categories who [r] d
                = Inl (Unique_violation (if cat_id r \<in> set (map cat_id (categories d))
                                         then ''categories_pkey''
                                         else ''categories_user_default_unique_idx'')))
       \<and> (C \<in> set (categories d) \<and> rls who categories_select_policy C
            \<and> rls who categories_update_policy C \<and> is_default C \<noteq> Some True
            \<and> (\<exists>c\<in>set (categories d). cat_user_id c = cat_user_id C \<and> is_default c = Some True)
          \<longrightarrow> update_categories who (\<lambda>c. cat_id c = cat_id C)
                  (\<lambda>c. c\<lparr>is_default := Some True\<rparr>) d
                = Inl (Unique_violation ''categories_user_default_unique_idx''))"
  using assms insert_categories_inv[of d who rows] update_categories_inv[of d who wh upd]
    delete_categories_inv[of d who wh] insert_second_default_fails[of who r d]
    update_second_default_fails[of d C who]
  by blast

theorem at_most_one_default_preserved_witness:
  "categories_inv (categories scenario_db)
   \<and> insert_categories (Authenticated 1) [food_cat\<lparr>cat_id := 12, is_default := Some True\<rparr>]
        scenario_db
       = Inl (Unique_violation ''categories_user_default_unique_idx'')
   \<and> update_categories (Authenticated 1) (\<lambda>c. cat_id c = cat_id food_cat)
        (\<lambda>c. c\<lparr>is_default := Some True\<rparr>) scenario_db
       = Inl (Unique_violation ''categories_user_default_unique_idx'')
   \<and> delete_categories (Authenticated 1) (\<lambda>c. cat_id c = 11) scenario_db
       = Inr (scenario_db\<lparr>categories := [general_cat],
                expenses := [lunch_expense\<lparr>category_id := 10\<rparr>]\<rparr>)
   \<and> categories_inv [general_cat]"
proof -
  let ?r = "food_cat\<lparr>cat_id := 12, is_default := Some True\<rparr>"
  have inv: "categories_inv (categories scenario_db)"
    by (simp add: statement_eval scenario_defs)
  note T = at_most_one_default_preserved [OF inv, of "Authenticated 1" "[]"
      "\<lambda>c. cat_id c = 11" id ?r food_cat]
  have del: "delete_categories (Authenticated 1) (\<lambda>c. cat_id c = 11) scenario_db
             = Inr (scenario_db\<lparr>categories := [general_cat],
                     expenses := [lunch_expense\<lparr>category_id := 10\<rparr>]\<rparr>)"
    by (simp add: delete_eval scenario_defs)
  have p4: "rls (Authenticated 1) categories_insert_policy ?r \<and> is_default ?r = Some True
            \<and> (\<exists>c\<in>set (categories scenario_db).
                  cat_user_id c = cat_user_id ?r \<and> is_default c = Some True)"
    by (simp add: categories_insert_policy_def scenario_defs)
  have p5: "food_cat \<in> set (categories scenario_db)
            \<and> rls (Authenticated 1) categories_select_policy food_cat
            \<and> rls (Authenticated 1) categories_update_policy food_cat
            \<and> is_default food_cat \<noteq> Some True
            \<and> (\<exists>c\<in>set (categories scenario_db).
                  cat_user_id c = cat_user_id food_cat \<and> is_default c = Some True)"
    by (simp add: categories_select_policy_def categories_update_policy_def scenario_defs)
  from T p4 have "insert_categories (Authenticated 1) [?r] scenario_db
       = Inl (Unique_violation (if cat_id ?r \<in> set (map cat_id (categories scenario_db))
                                then ''categories_pkey''
                                else ''categories_user_default_unique_idx''))"
    by blast
  then have r4: "insert_categories (Authenticated 1) [?r] scenario_db
       = Inl (Unique_violation ''categories_user_default_unique_idx'')"
    by (simp add: scenario_defs)
  from T p5 have r5: "update_categories (Authenticated 1) (\<lambda>c. cat_id c = cat_id food_cat)
        (\<lambda>c. c\<lparr>is_default := Some True\<rparr>) scenario_db
       = Inl (Unique_violation ''categories_user_default_unique_idx'')"
    by blast
  from T del have "categories_inv (categories (scenario_db\<lparr>categories := [general_cat],
                     expenses := [lunch_expense\<lparr>category_id := 10\<rparr>]\<rparr>))"
    by blast
  then have r3: "categories_inv [general_cat]" by simp
  show ?thesis using inv r4 r5 del r3 by simp
qed

text \<open>
  The claim as stated fails: nothing makes one of the categories of an owner the default.
  A user without categories adds one through \<^verbatim>\<open>addCategory\<close> and then owns one category
  and no default.
\<close>

theorem category_without_default_counterexample:
  "categories fresh_db = []
   \<and> addCategory (Some 1) 11 1 \<lparr>cd_name = ''Food'', cd_color = ''#EF4444'', cd_icon = ''utensils''\<rparr>
        ([], fresh_db)
       = (Done, [food_cat], fresh_db\<lparr>categories := [food_cat]\<rparr>)
   \<and> cat_user_id food_cat = 1
   \<and> is_default food_cat = Some False"
  by (simp add: addCategory_def Let_def statement_eval fresh_db_def food_cat_def)

section \<open>Deleting a category that is not the default\<close>

text \<open>
  Claim C2. Let \<open>C\<close> be a category whose flag is not true and \<open>D\<close> the default category
  of the same owner, in stored data that satisfy the primary key of the categories and the
  partial unique index. When the owner deletes \<open>C\<close> through \<^verbatim>\<open>deleteCategory\<close>, the
  request ends without an error, \<open>C\<close> is gone from the table and \<open>D\<close> is still there,
  unchanged; every expense that referenced \<open>C\<close> now references \<open>D\<close> and the other expenses
  are as they were, so that every owner has as many expenses as before.
\<close>

theorem deleteCategory_moves_expenses_to_default:
  assumes "categories_pkey (categories d)"
    and "categories_user_default_unique_idx (categories d)"
    and "C \<in> set (categories d)" and "is_default C \<noteq> Some True"
    and "D \<in> set (categories d)" and "cat_user_id D = cat_user_id C"
    and "is_default D = Some True"
  shows "deleteCategory (Some (cat_user_id C)) (cat_id C) (cats, d)
           = (Done, filter (\<lambda>c. cat_id c \<noteq> cat_id C) cats,
              d\<lparr>categories := filter (\<lambda>c. cat_id c \<noteq> cat_id C) (categories d),
                expenses := map (reassign_expense (cat_id C) (cat_id D)) (expenses d)\<rparr>)
         \<and> C \<notin> set (filter (\<lambda>c. cat_id c \<noteq> cat_id C) (categories d))
         \<and> D \<in> set (filter (\<lambda>c. cat_id c \<noteq> cat_id C) (categories d))
         \<and> (\<forall>e\<in>set (expenses d). category_id (reassign_expense (cat_id C) (cat_id D) e)
                = (if category_id e = cat_id C then cat_id D else category_id e))
         \<and> (\<forall>u. length (filter (\<lambda>e. exp_user_id e = u)
                       (map (reassign_expense (cat_id C) (cat_id D)) (expenses d)))
                   = length (filter (\<lambda>e. exp_user_id e = u) (expenses d)))"
proof -
  let ?move = "reassign_expense (cat_id C) (cat_id D)"
  have "C \<noteq> D" using assms(4,7) by auto
  then have ids: "cat_id D \<noteq> cat_id C"
    using assms(1,3,5) distinct_map_eq[of cat_id "categories d" D C]
    by (auto simp: categories_pkey_def)
  have dflt: "find (\<lambda>c. cat_user_id c = cat_user_id C \<and> is_default c = Some True)
                (categories d) = Some D"
    using find_default[OF assms(2,5,7)] assms(6) by simp
  have "\<forall>e\<in>set (map ?move (expenses d)). category_id e \<noteq> cat_id C"
    using ids by (auto simp: reassign_expense_def)
  then have keep: "filter (\<lambda>e. category_id e \<noteq> cat_id C) (map ?move (expenses d))
                   = map ?move (expenses d)"
    by (simp only: filter_id_conv)
  have tgt: "filter (\<lambda>c. categories_select_policy (cat_user_id C) c
                      \<and> categories_delete_policy (cat_user_id C) c
                      \<and> cat_id c = cat_id C \<and> cat_user_id c = cat_user_id C) (categories d) = [C]"
    using assms(1,3,4) by (simp add: client_delete_targets)
  have trig: "handle_category_deletion C d = Inr (d\<lparr>expenses := map ?move (expenses d)\<rparr>)"
    using assms(4) dflt
    by (simp add: handle_category_deletion_def)
  have run: "deleteCategory (Some (cat_user_id C)) (cat_id C) (cats, d)
           = (Done, filter (\<lambda>c. cat_id c \<noteq> cat_id C) cats,
              d\<lparr>categories := filter (\<lambda>c. cat_id c \<noteq> cat_id C) (categories d),
                expenses := map ?move (expenses d)\<rparr>)"
    by (simp add: deleteCategory_def delete_categories_def tgt trig keep)
  have owner: "\<And>e. exp_user_id (?move e) = exp_user_id e"
    by (simp add: reassign_expense_def)
  have count: "\<forall>u. length (filter (\<lambda>e. exp_user_id e = u) (map ?move (expenses d)))
                   = length (filter (\<lambda>e. exp_user_id e = u) (expenses d))"
    by (simp add: filter_map comp_def owner)
  have "D \<in> set (filter (\<lambda>c. cat_id c \<noteq> cat_id C) (categories d))"
    using assms(5) ids by simp
  moreover have "\<forall>e\<in>set (expenses d). category_id (?move e)
                = (if category_id e = cat_id C then cat_id D else category_id e)"
    by (simp add: reassign_expense_def)
  ultimately show ?thesis using run count by simp
qed

theorem deleteCategory_moves_expenses_to_default_witness:
  "deleteCategory (Some 1) 11 ([general_cat, food_cat], scenario_db)
     = (Done, [general_cat],
        \<lparr>auth_users = [1], user_profiles = [], categories = [general_cat],
         expenses = [lunch_expense\<lparr>category_id := 10\<rparr>]\<rparr>)
   \<and> is_default general_cat = Some True"
proof -
  have pk: "categories_pkey (categories scenario_db)"
    by (simp add: categories_pkey_def scenario_defs)
  have uq: "categories_user_default_unique_idx (categories scenario_db)"
    by (simp add: categories_user_default_unique_idx_def scenario_defs)
  have memC: "food_cat \<in> set (categories scenario_db)"
    by (simp add: scenario_defs)
  have nd: "is_default food_cat \<noteq> Some True"
    by (simp add: scenario_defs)
  have memD: "general_cat \<in> set (categories scenario_db)"
    by (simp add: scenario_defs)
  have own: "cat_user_id general_cat = cat_user_id food_cat"
    by (simp add: scenario_defs)
  have dflt: "is_default general_cat = Some True"
    by (simp add: scenario_defs)
  show ?thesis
    using deleteCategory_moves_expenses_to_default [OF pk uq memC nd memD own dflt, of "[general_cat, food_cat]"]
    by (simp add: scenario_defs reassign_expense_def)
qed


section \<open>Deleting the default category\<close>

text \<open>
  Claim C3, as amended. Let \<open>C\<close> be a category whose flag is true. A \<^verbatim>\<open>DELETE\<close> that
  reaches the row, run by a role that row level security does not apply to, fails in the
  trigger with the message \<^verbatim>\<open>Cannot delete default category\<close> and leaves the stored
  data as they were. The request of \<^verbatim>\<open>deleteCategory\<close>, run by any signed-in user,
  finds no row, because the delete policy hides \<open>C\<close>: it ends without an error and leaves
  the stored data as they were (the hook then drops \<open>C\<close> from its local list).
\<close>

theorem delete_default_category_unchanged:
  assumes "categories_pkey (categories d)"
    and "C \<in> set (categories d)" and "is_default C = Some True"
  shows "(wh C \<longrightarrow> exec (delete_categories Privileged wh) d
            = (Some (Raise_exception ''Cannot delete default category''), d))
       \<and> deleteCategory (Some uid) (cat_id C) (cats, d)
            = (Done, filter (\<lambda>c. cat_id c \<noteq> cat_id C) cats, d)"
proof
  show "wh C \<longrightarrow> exec (delete_categories Privileged wh) d
            = (Some (Raise_exception ''Cannot delete default category''), d)"
  proof
    assume "wh C"
    with assms have "\<exists>c\<in>set (filter (\<lambda>c. rls Privileged categories_select_policy c
                     \<and> rls Privileged categories_delete_policy c \<and> wh c) (categories d)).
                  is_default c = Some True"
      by auto
    then show "exec (delete_categories Privileged wh) d
            = (Some (Raise_exception ''Cannot delete default category''), d)"
      by (simp add: exec_def delete_categories_def delete_category_rows_default
               del: rls.simps)
  qed
next
  have "delete_categories (Authenticated uid)
          (\<lambda>c. cat_id c = cat_id C \<and> cat_user_id c = uid) d = Inr d"
    using assms by (intro delete_categories_no_target) (simp add: client_delete_targets)
  then show "deleteCategory (Some uid) (cat_id C) (cats, d)
            = (Done, filter (\<lambda>c. cat_id c \<noteq> cat_id C) cats, d)"
    by (simp add: deleteCategory_def)
qed



theorem delete_default_category_unchanged_witness:
  "exec (delete_categories Privileged (\<lambda>c. True)) scenario_db
     = (Some (Raise_exception ''Cannot delete default category''), scenario_db)
   \<and> deleteCategory (Some 1) 10 ([general_cat, food_cat], scenario_db)
     = (Done, [food_cat], scenario_db)"
proof -
  have pk: "categories_pkey (categories scenario_db)"
    by (simp add: categories_pkey_def scenario_defs)
  have mem: "general_cat \<in> set (categories scenario_db)"
    by (simp add: scenario_defs)
  have dflt: "is_default general_cat = Some True"
    by (simp add: scenario_defs)
  show ?thesis
    using delete_default_category_unchanged [OF pk mem dflt, of "\<lambda>c. True" 1 "[general_cat, food_cat]"]
    by (simp add: general_cat_def food_cat_def)
qed

text \<open>
  The claim as stated fails: the owner's request to delete the default category of the
  example data reports no error.
\<close>

theorem delete_default_category_no_error_counterexample:
  "general_cat \<in> set (categories scenario_db) \<and> is_default general_cat = Some True
   \<and> deleteCategory (Some 1) 10 ([general_cat, food_cat], scenario_db)
       = (Done, [food_cat], scenario_db)"
  by (simp add: delete_eval scenario_defs)

section \<open>The deletion as one step\<close>

lemma delete_categories_complete:
  assumes "delete_categories who wh d = Inr d'"
    and "c \<in> set (categories d)"
    and "rls who categories_select_policy c \<and> rls who categories_delete_policy c \<and> wh c"
  shows "cat_id c \<notin> set (map cat_id (categories d'))
         \<and> (\<forall>e\<in>set (expenses d'). category_id e \<noteq> cat_id c)"
proof -
  let ?ts = "filter (\<lambda>c. rls who categories_select_policy c
                        \<and> rls who categories_delete_policy c \<and> wh c) (categories d)"
  from assms(1) obtain d1 where rows: "delete_category_rows ?ts d = Inr d1"
    and cats: "categories d' = categories d1"
    and exps: "expenses d' = filter (\<lambda>e. category_id e \<notin> set (map cat_id ?ts)) (expenses d1)"
    by (auto simp: delete_categories_def Let_def split: sum.splits)
  have tgt: "cat_id c \<in> set (map cat_id ?ts)"
    using assms(2,3) by auto
  have "categories d' = filter (\<lambda>x. cat_id x \<notin> set (map cat_id ?ts)) (categories d)"
    using delete_category_rows_categories[OF rows] cats by simp
  with tgt have "cat_id c \<notin> set (map cat_id (categories d'))"
    by auto
  moreover from tgt exps have "\<forall>e\<in>set (expenses d'). category_id e \<noteq> cat_id c"
    by auto
  ultimately show ?thesis by simp
qed

text \<open>
  Claim C4. The reassignment of the expenses and the removal of the category are one
  statement: the trigger runs inside the \<^verbatim>\<open>DELETE\<close>. For every caller and condition the
  statement either fails and leaves the stored data as they were, or succeeds, and then
  every category it selected is gone and no expense references it any more. So the data
  between two statements never show the expenses moved with the category still there, nor
  the category gone with an expense still pointing at it.
\<close>

theorem category_deletion_all_or_nothing:
  "(\<exists>e. exec (delete_categories who wh) d = (Some e, d))
   \<or> (\<exists>d'. exec (delete_categories who wh) d = (None, d')
         \<and> (\<forall>c\<in>set (categories d).
               rls who categories_select_policy c \<and> rls who categories_delete_policy c \<and> wh c
               \<longrightarrow> cat_id c \<notin> set (map cat_id (categories d'))
                   \<and> (\<forall>e\<in>set (expenses d'). category_id e \<noteq> cat_id c)))"
proof (cases "delete_categories who wh d")
  case (Inl e)
  then show ?thesis by (simp add: exec_def)
next
  case (Inr d')
  then have "exec (delete_categories who wh) d = (None, d')"
    by (simp add: exec_def)
  with delete_categories_complete[OF Inr] show ?thesis by blast
qed

theorem category_deletion_all_or_nothing_witness:
  "exec (delete_categories Privileged (\<lambda>c. True)) scenario_db
     = (Some (Raise_exception ''Cannot delete default category''), scenario_db)
   \<and> exec (delete_categories (Authenticated 1) (\<lambda>c. cat_id c = 11)) scenario_db
     = (None, scenario_db\<lparr>categories := [general_cat],
                expenses := [lunch_expense\<lparr>category_id := 10\<rparr>]\<rparr>)
   \<and> cat_id food_cat \<notin> set (map cat_id [general_cat])
   \<and> category_id (lunch_expense\<lparr>category_id := 10\<rparr>) \<noteq> cat_id food_cat"
proof -
  let ?d' = "scenario_db\<lparr>categories := [general_cat],
                expenses := [lunch_expense\<lparr>category_id := 10\<rparr>]\<rparr>"
  have err: "exec (delete_categories Privileged (\<lambda>c. True)) scenario_db
     = (Some (Raise_exception ''Cannot delete default category''), scenario_db)"
    by (simp add: delete_eval scenario_defs)
  have ok: "exec (delete_categories (Authenticated 1) (\<lambda>c. cat_id c = 11)) scenario_db
     = (None, ?d')"
    by (simp add: delete_eval scenario_defs)
  have tgt: "food_cat \<in> set (categories scenario_db)
     \<and> rls (Authenticated 1) categories_select_policy food_cat
     \<and> rls (Authenticated 1) categories_delete_policy food_cat \<and> cat_id food_cat = 11"
    by (simp add: categories_select_policy_def categories_delete_policy_def scenario_defs)
  from category_deletion_all_or_nothing [of "Authenticated 1" "\<lambda>c. cat_id c = 11" scenario_db]
  have "cat_id food_cat \<notin> set (map cat_id (categories ?d'))
        \<and> (\<forall>e\<in>set (expenses ?d'). category_id e \<noteq> cat_id food_cat)"
    using ok tgt by auto
  then show ?thesis using err ok by simp
qed

section \<open>Deleting a category of an owner without a default\<close>

text \<open>
  Claim C5, as amended. Let \<open>C\<close> be a category whose flag is not true, of an owner none of
  whose categories has a true flag. When the owner deletes \<open>C\<close> through
  \<^verbatim>\<open>deleteCategory\<close>, the request ends without an error, \<open>C\<close> is removed, and the expenses
  that referenced \<open>C\<close> are removed with it by the foreign key's \<^verbatim>\<open>ON DELETE CASCADE\<close>;
  the other rows are as they were.
\<close>

theorem delete_category_without_default_cascades:
  assumes "categories_pkey (categories d)"
    and "C \<in> set (categories d)" and "is_default C \<noteq> Some True"
    and "\<forall>c\<in>set (categories d). cat_user_id c = cat_user_id C \<longrightarrow> is_default c \<noteq> Some True"
  shows "deleteCategory (Some (cat_user_id C)) (cat_id C) (cats, d)
           = (Done, filter (\<lambda>c. cat_id c \<noteq> cat_id C) cats,
              d\<lparr>categories := filter (\<lambda>c. cat_id c \<noteq> cat_id C) (categories d),
                expenses := filter (\<lambda>e. category_id e \<noteq> cat_id C) (expenses d)\<rparr>)"
proof -
  have nodef: "find (\<lambda>c. cat_user_id c = cat_user_id C \<and> is_default c = Some True)
                 (categories d) = None"
    using assms(4) by (rule find_no_default)
  show ?thesis
    using assms(1-3) nodef
    by (simp add: deleteCategory_def delete_categories_def client_delete_targets
          handle_category_deletion_def)
qed

theorem delete_category_without_default_cascades_witness:
  "deleteCategory (Some 1) 11 ([food_cat], no_default_db)
     = (Done, [], \<lparr>auth_users = [1], user_profiles = [], categories = [], expenses = []\<rparr>)"
proof -
  have pk: "categories_pkey (categories no_default_db)"
    by (simp add: categories_pkey_def scenario_defs)
  have mem: "food_cat \<in> set (categories no_default_db)"
    by (simp add: scenario_defs)
  have nd: "is_default food_cat \<noteq> Some True"
    by (simp add: scenario_defs)
  have none: "\<forall>c\<in>set (categories no_default_db).
                cat_user_id c = cat_user_id food_cat \<longrightarrow> is_default c \<noteq> Some True"
    by (simp add: scenario_defs)
  show ?thesis
    using delete_category_without_default_cascades [OF pk mem nd none, of "[food_cat]"]
    by (simp add: scenario_defs)
qed

text \<open>
  The claim as stated fails: in the example data without a default category, the expense on
  Food does not survive the deletion of Food.
\<close>

theorem expenses_not_left_dangling_counterexample:
  "is_default food_cat \<noteq> Some True
   \<and> categories no_default_db = [food_cat]
   \<and> lunch_expense \<in> set (expenses no_default_db)
   \<and> category_id lunch_expense = cat_id food_cat
   \<and> fst (deleteCategory (Some 1) 11 ([food_cat], no_default_db)) = Done
   \<and> expenses (snd (snd (deleteCategory (Some 1) 11 ([food_cat], no_default_db)))) = []"
  by (simp add: delete_eval scenario_defs)

section \<open>Provisioning once and again\<close>

lemma insert_category_rows_fresh:
  assumes "\<forall>r\<in>set rows. rls who categories_insert_policy r"
    and "distinct (map cat_id rows)"
    and "set (map cat_id rows) \<inter> set (map cat_id (categories d)) = {}"
    and "\<forall>r\<in>set rows. is_default r = Some True \<longrightarrow>
           (\<forall>c\<in>set (categories d). cat_user_id c = cat_user_id r \<longrightarrow> is_default c \<noteq> Some True)"
    and "categories_user_default_unique_idx rows"
  shows "insert_category_rows who rows d = Inr (d\<lparr>categories := categories d @ rows\<rparr>)"
  using assms
proof (induction rows arbitrary: d)
  case Nil
  then show ?case by simp
next
  case (Cons r rows)
  have r1: "rls who categories_insert_policy r"
    using Cons.prems(1) by simp
  have r2: "cat_id r \<notin> set (map cat_id (categories d))"
    using Cons.prems(3) by auto
  have r3: "\<not> (is_default r = Some True
            \<and> (\<exists>c\<in>set (categories d). cat_user_id c = cat_user_id r \<and> is_default c = Some True))"
    using Cons.prems(4) by (meson list.set_intros(1))
  have row: "insert_category_row who r d = Inr (d\<lparr>categories := categories d @ [r]\<rparr>)"
    unfolding insert_category_row_def using r1 r2 r3 by simp
  have later: "\<forall>r'\<in>set rows. is_default r' = Some True \<longrightarrow>
           (\<forall>c\<in>set (categories d @ [r]). cat_user_id c = cat_user_id r' \<longrightarrow> is_default c \<noteq> Some True)"
  proof (intro ballI impI)
    fix r' c
    assume r': "r' \<in> set rows" "is_default r' = Some True"
      and c: "c \<in> set (categories d @ [r])" "cat_user_id c = cat_user_id r'"
    show "is_default c \<noteq> Some True"
    proof (cases "c = r")
      case True
      show ?thesis
      proof
        assume "is_default c = Some True"
        with True have "is_default r = Some True" by simp
        with Cons.prems(5) have "cat_user_id r \<notin> set (map cat_user_id
                                   (filter (\<lambda>c. is_default c = Some True) rows))"
          by (simp add: categories_user_default_unique_idx_def)
        moreover have "r' \<in> set (filter (\<lambda>c. is_default c = Some True) rows)"
          using r' by simp
        then have "cat_user_id r' \<in> set (map cat_user_id
                                   (filter (\<lambda>c. is_default c = Some True) rows))"
          by (simp only: set_map) (rule imageI)
        ultimately show False using True c(2) by simp
      qed
    next
      case False
      with c(1) have "c \<in> set (categories d)" by simp
      with Cons.prems(4) r' c(2) show ?thesis
        by (meson list.set_intros(2))
    qed
  qed
  have idx: "categories_user_default_unique_idx rows"
    using Cons.prems(5)
    by (cases "is_default r = Some True") (auto simp: categories_user_default_unique_idx_def)
  have "insert_category_rows who rows (d\<lparr>categories := categories d @ [r]\<rparr>)
        = Inr (d\<lparr>categories := categories d @ [r]\<rparr>
                 \<lparr>categories := categories (d\<lparr>categories := categories d @ [r]\<rparr>) @ rows\<rparr>)"
  proof (rule Cons.IH)
    show "\<forall>r\<in>set rows. rls who categories_insert_policy r"
      using Cons.prems(1) by simp
    show "distinct (map cat_id rows)"
      using Cons.prems(2) by simp
    show "set (map cat_id rows)
            \<inter> set (map cat_id (categories (d\<lparr>categories := categories d @ [r]\<rparr>))) = {}"
      using Cons.prems(2,3) by auto
    show "\<forall>r'\<in>set rows. is_default r' = Some True \<longrightarrow>
           (\<forall>c\<in>set (categories (d\<lparr>categories := categories d @ [r]\<rparr>)).
              cat_user_id c = cat_user_id r' \<longrightarrow> is_default c \<noteq> Some True)"
      using later by simp
    show "categories_user_default_unique_idx rows" by (rule idx)
  qed
  with row show ?case by simp
qed

lemma starter_rows_ids: "map cat_id (starter_rows gen now u vals) = map gen [0..<length vals]"
proof -
  have a: "map fst (enumerate 0 vals) = [0..<length vals]"
    by (simp add: map_fst_enumerate)
  have "map cat_id (starter_rows gen now u vals) = map (gen \<circ> fst) (enumerate 0 vals)"
    by (simp add: starter_rows_def case_prod_beta comp_def)
  also have "\<dots> = map gen (map fst (enumerate 0 vals))"
    by (simp only: map_map)
  finally show ?thesis by (simp only: a)
qed

lemma starter_rows_owner: "\<forall>r\<in>set (starter_rows gen now u vals). cat_user_id r = u"
  by (auto simp: starter_rows_def)

lemma starter_rows_defaults:
  "filter (\<lambda>c. is_default c = Some True) (starter_rows gen now u default_category_values)
   = [\<lparr>cat_id = gen 0, cat_user_id = u, name = ''General'', color = ''#6B7280'',
       icon = ''folder'', is_default = Some True, cat_created_at = Some now\<rparr>]"
  by (simp add: starter_rows_def default_category_values_def)

lemma starter_rows_first:
  "\<exists>rest. starter_rows gen now u default_category_values
     = \<lparr>cat_id = gen 0, cat_user_id = u, name = ''General'', color = ''#6B7280'',
        icon = ''folder'', is_default = Some True, cat_created_at = Some now\<rparr> # rest"
  by (simp add: starter_rows_def default_category_values_def)

lemma second_provisioning_categories:
  assumes "\<exists>c\<in>set (categories d). cat_user_id c = u \<and> is_default c = Some True"
  shows "\<exists>e. insert_categories Privileged (starter_rows gen now u default_category_values) d = Inl e"
proof -
  from starter_rows_first obtain rest where
    rows: "starter_rows gen now u default_category_values
     = \<lparr>cat_id = gen 0, cat_user_id = u, name = ''General'', color = ''#6B7280'',
        icon = ''folder'', is_default = Some True, cat_created_at = Some now\<rparr> # rest"
    by blast
  show ?thesis
    using assms unfolding rows
    by (auto simp: insert_categories_def insert_category_row_def)
qed

lemma second_provisioning:
  assumes "\<exists>p\<in>set (user_profiles d). up_user_id p = u"
    and "\<exists>c\<in>set (categories d). cat_user_id c = u \<and> is_default c = Some True"
  shows "\<exists>ws. handle_new_user pid gen now u d = Inr (ws, d)"
proof -
  have prof: "create_default_user_profile pid now u ''USD'' ''$'' d = Inr ([], d)"
    using assms(1)
    by (auto simp: create_default_user_profile_def exception_when_others_def
          insert_user_profile_on_conflict_do_nothing_def)
  from second_provisioning_categories[OF assms(2)] obtain e where
    "insert_categories Privileged (starter_rows gen now u default_category_values) d = Inl e"
    by blast
  then have cats: "create_default_categories_for_user gen now u d
                   = Inr ([Warning ''Failed to create default categories for user'' e], d)"
    by (simp add: create_default_categories_for_user_def exception_when_others_def)
  show ?thesis
    by (simp add: handle_new_user_def exception_when_others_def prof cats)
qed

lemma default_category_values_length: "length default_category_values = 8"
  by (simp add: default_category_values_def)

lemma defaultCategories_length: "length defaultCategories = 6"
  by (simp add: defaultCategories_def)

lemma starter_rows_client_defaults:
  "filter (\<lambda>c. is_default c = Some True) (starter_rows gen now u defaultCategories)
   = [\<lparr>cat_id = gen 0, cat_user_id = u, name = ''General'', color = ''#6B7280'',
       icon = ''folder'', is_default = Some True, cat_created_at = Some now\<rparr>]"
  by (simp add: starter_rows_def defaultCategories_def)

lemma filter_owner_default:
  assumes "\<forall>r\<in>set rows. cat_user_id r = u"
  shows "filter (\<lambda>c. cat_user_id c = u \<and> is_default c = Some True) rows
         = filter (\<lambda>c. is_default c = Some True) rows"
  using assms by (intro filter_cong) auto

lemma insert_starter_rows:
  assumes user: "u \<in> set (auth_users d)"
    and nocat: "\<forall>c\<in>set (categories d). cat_user_id c \<noteq> u"
    and fresh: "set (map gen [0..<length vals]) \<inter> set (map cat_id (categories d)) = {}"
    and dist: "distinct (map gen [0..<length vals])"
    and one: "length (filter (\<lambda>c. is_default c = Some True) (starter_rows gen now u vals)) \<le> 1"
    and who: "who = Privileged \<or> who = Authenticated u"
  shows "insert_categories who (starter_rows gen now u vals) d
         = Inr (d\<lparr>categories := categories d @ starter_rows gen now u vals\<rparr>)"
proof -
  let ?rows = "starter_rows gen now u vals"
  have own: "\<forall>r\<in>set ?rows. cat_user_id r = u" by (rule starter_rows_owner)
  have pol: "\<forall>r\<in>set ?rows. rls who categories_insert_policy r"
    using who own by (auto simp: categories_insert_policy_def)
  have idx: "categories_user_default_unique_idx ?rows"
    unfolding categories_user_default_unique_idx_def using one
    by (cases "filter (\<lambda>c. is_default c = Some True) ?rows") auto
  have "insert_category_rows who ?rows d = Inr (d\<lparr>categories := categories d @ ?rows\<rparr>)"
  proof (rule insert_category_rows_fresh)
    show "\<forall>r\<in>set ?rows. rls who categories_insert_policy r" by (rule pol)
    show "distinct (map cat_id ?rows)" using dist by (simp only: starter_rows_ids)
    show "set (map cat_id ?rows) \<inter> set (map cat_id (categories d)) = {}"
      using fresh by (simp only: starter_rows_ids)
    show "\<forall>r\<in>set ?rows. is_default r = Some True \<longrightarrow>
           (\<forall>c\<in>set (categories d). cat_user_id c = cat_user_id r \<longrightarrow> is_default c \<noteq> Some True)"
      using own nocat by metis
    show "categories_user_default_unique_idx ?rows" by (rule idx)
  qed
  then show ?thesis using own user by (simp add: insert_categories_def)
qed

lemma handle_new_user_fresh:
  assumes user: "u \<in> set (auth_users d)"
    and noprof: "\<forall>p\<in>set (user_profiles d). up_user_id p \<noteq> u"
    and nocat: "\<forall>c\<in>set (categories d). cat_user_id c \<noteq> u"
    and pid: "pid \<notin> set (map up_id (user_profiles d))"
    and fresh: "set (map gen [0..<8]) \<inter> set (map cat_id (categories d)) = {}"
    and dist: "distinct (map gen [0..<8])"
  shows "handle_new_user pid gen now u d
         = Inr ([], d\<lparr>user_profiles := user_profiles d @
                         [\<lparr>up_id = pid, up_user_id = u, currency_code = ''USD'',
                           currency = ''$'', up_created_at = Some now\<rparr>],
                       categories := categories d @
                         starter_rows gen now u default_category_values\<rparr>)"
proof -
  let ?p = "\<lparr>up_id = pid, up_user_id = u, currency_code = ''USD'',
             currency = ''$'', up_created_at = Some now\<rparr>"
  let ?d1 = "d\<lparr>user_profiles := user_profiles d @ [?p]\<rparr>"
  have nop: "u \<notin> set (map up_user_id (user_profiles d))"
    using noprof by auto
  have prof: "create_default_user_profile pid now u ''USD'' ''$'' d = Inr ([], ?d1)"
    using user nop pid
    by (simp add: create_default_user_profile_def exception_when_others_def
          insert_user_profile_on_conflict_do_nothing_def)
  have "insert_categories Privileged (starter_rows gen now u default_category_values) ?d1
        = Inr (?d1\<lparr>categories := categories ?d1 @ starter_rows gen now u default_category_values\<rparr>)"
  proof (rule insert_starter_rows)
    show "u \<in> set (auth_users ?d1)" using user by simp
    show "\<forall>c\<in>set (categories ?d1). cat_user_id c \<noteq> u" using nocat by simp
    show "set (map gen [0..<length default_category_values]) \<inter> set (map cat_id (categories ?d1)) = {}"
      using fresh by (simp add: default_category_values_length)
    show "distinct (map gen [0..<length default_category_values])"
      using dist by (simp add: default_category_values_length)
    show "length (filter (\<lambda>c. is_default c = Some True)
            (starter_rows gen now u default_category_values)) \<le> 1"
      by (simp add: starter_rows_defaults)
    show "Privileged = Privileged \<or> Privileged = Authenticated u" by simp
  qed
  then have cats: "create_default_categories_for_user gen now u ?d1
        = Inr ([], ?d1\<lparr>categories := categories ?d1 @ starter_rows gen now u default_category_values\<rparr>)"
    by (simp add: create_default_categories_for_user_def exception_when_others_def)
  show ?thesis
    by (simp add: handle_new_user_def exception_when_others_def prof cats)
qed

lemma fetchCategories_fresh:
  assumes user: "u \<in> set (auth_users d)"
    and nocat: "\<forall>c\<in>set (categories d). cat_user_id c \<noteq> u"
    and fresh: "set (map gen [0..<6]) \<inter> set (map cat_id (categories d)) = {}"
    and dist: "distinct (map gen [0..<6])"
  shows "fetchCategories (Some u) gen now (cats, d)
         = (Done, starter_rows gen now u defaultCategories,
            d\<lparr>categories := categories d @ starter_rows gen now u defaultCategories\<rparr>)"
proof -
  have none: "select_categories (Authenticated u) (\<lambda>c. cat_user_id c = u) d = []"
    using nocat by (simp add: select_categories_def filter_empty_conv)
  have "insert_categories (Authenticated u) (starter_rows gen now u defaultCategories) d
        = Inr (d\<lparr>categories := categories d @ starter_rows gen now u defaultCategories\<rparr>)"
  proof (rule insert_starter_rows)
    show "u \<in> set (auth_users d)" by (rule user)
    show "\<forall>c\<in>set (categories d). cat_user_id c \<noteq> u" by (rule nocat)
    show "set (map gen [0..<length defaultCategories]) \<inter> set (map cat_id (categories d)) = {}"
      using fresh by (simp add: defaultCategories_length)
    show "distinct (map gen [0..<length defaultCategories])"
      using dist by (simp add: defaultCategories_length)
    show "length (filter (\<lambda>c. is_default c = Some True)
            (starter_rows gen now u defaultCategories)) \<le> 1"
      by (simp add: starter_rows_client_defaults)
    show "Authenticated u = Privileged \<or> Authenticated u = Authenticated u" by simp
  qed
  then show ?thesis
    by (simp add: fetchCategories_def createDefaultCategories_def Let_def none order_categories_def)
qed

lemma fetchCategories_again:
  assumes "\<exists>c\<in>set (categories d). cat_user_id c = u"
  shows "snd (snd (fetchCategories (Some u) gen now (cats, d))) = d"
proof -
  have "select_categories (Authenticated u) (\<lambda>c. cat_user_id c = u) d \<noteq> []"
    using assms
    by (auto simp: select_categories_def categories_select_policy_def filter_empty_conv)
  then have "length (order_categories
               (select_categories (Authenticated u) (\<lambda>c. cat_user_id c = u) d)) \<noteq> 0"
    by (simp add: order_categories_def)
  then show ?thesis
    by (simp add: fetchCategories_def Let_def)
qed

lemma filter_eq_singletonD:
  assumes "filter P xs = [x]"
  shows "x \<in> set xs \<and> P x"
proof -
  have "x \<in> set (filter P xs)" by (simp add: assms)
  then show ?thesis by simp
qed

text \<open>
  Claim C6. Let \<open>u\<close> be a user of \<^verbatim>\<open>auth.users\<close> with no profile and no category, and let
  the generated ids be new and different from each other. Then \<^verbatim>\<open>handle_new_user\<close> ends
  without a warning and leaves exactly one profile of \<open>u\<close>, with the currency code USD and
  the symbol \<^verbatim>\<open>$\<close>, and exactly one category of \<open>u\<close> with a true flag, named General;
  running it again, with any ids and timestamp, changes nothing. The client's
  \<^verbatim>\<open>fetchCategories\<close> on the same data inserts its own starter set, with General as the one
  category with a true flag, and running it again changes nothing in the stored data.
\<close>

theorem provisioning_once:
  assumes user: "u \<in> set (auth_users d)"
    and noprof: "\<forall>p\<in>set (user_profiles d). up_user_id p \<noteq> u"
    and nocat: "\<forall>c\<in>set (categories d). cat_user_id c \<noteq> u"
    and pid: "pid \<notin> set (map up_id (user_profiles d))"
    and fresh: "set (map gen [0..<8]) \<inter> set (map cat_id (categories d)) = {}"
    and dist: "distinct (map gen [0..<8])"
  shows "(\<exists>d'. handle_new_user pid gen now u d = Inr ([], d')
           \<and> filter (\<lambda>p. up_user_id p = u) (user_profiles d')
               = [\<lparr>up_id = pid, up_user_id = u, currency_code = ''USD'', currency = ''$'',
                   up_created_at = Some now\<rparr>]
           \<and> filter (\<lambda>c. cat_user_id c = u \<and> is_default c = Some True) (categories d')
               = [\<lparr>cat_id = gen 0, cat_user_id = u, name = ''General'', color = ''#6B7280'',
                   icon = ''folder'', is_default = Some True, cat_created_at = Some now\<rparr>]
           \<and> (\<forall>pid' gen' now'. \<exists>ws. handle_new_user pid' gen' now' u d' = Inr (ws, d')))
       \<and> (\<exists>d'. fetchCategories (Some u) gen now (cats, d)
                  = (Done, starter_rows gen now u defaultCategories, d')
           \<and> filter (\<lambda>c. cat_user_id c = u \<and> is_default c = Some True) (categories d')
               = [\<lparr>cat_id = gen 0, cat_user_id = u, name = ''General'', color = ''#6B7280'',
                   icon = ''folder'', is_default = Some True, cat_created_at = Some now\<rparr>]
           \<and> (\<forall>gen' now' cats'.
                 snd (snd (fetchCategories (Some u) gen' now' (cats', d'))) = d'))"
proof
  let ?p = "\<lparr>up_id = pid, up_user_id = u, currency_code = ''USD'', currency = ''$'',
             up_created_at = Some now\<rparr>"
  let ?g = "\<lparr>cat_id = gen 0, cat_user_id = u, name = ''General'', color = ''#6B7280'',
             icon = ''folder'', is_default = Some True, cat_created_at = Some now\<rparr>"
  let ?rows = "starter_rows gen now u default_category_values"
  let ?d' = "d\<lparr>user_profiles := user_profiles d @ [?p], categories := categories d @ ?rows\<rparr>"
  have old_p: "filter (\<lambda>p. up_user_id p = u) (user_profiles d) = []"
    using noprof by (simp add: filter_empty_conv)
  have old_c: "filter (\<lambda>c. cat_user_id c = u \<and> is_default c = Some True) (categories d) = []"
    using nocat by (simp add: filter_empty_conv)
  have run: "handle_new_user pid gen now u d = Inr ([], ?d')"
    using assms by (rule handle_new_user_fresh)
  have profs: "filter (\<lambda>p. up_user_id p = u) (user_profiles ?d') = [?p]"
    using old_p by simp
  have "filter (\<lambda>c. cat_user_id c = u \<and> is_default c = Some True) ?rows = [?g]"
    using filter_owner_default[OF starter_rows_owner[of gen now u default_category_values]]
    by (simp only: starter_rows_defaults)
  then have dflt: "filter (\<lambda>c. cat_user_id c = u \<and> is_default c = Some True) (categories ?d')
                   = [?g]"
    using old_c by simp
  have has_c: "\<exists>c\<in>set (categories ?d'). cat_user_id c = u \<and> is_default c = Some True"
    using filter_eq_singletonD[OF dflt] by blast
  have has_p: "\<exists>p\<in>set (user_profiles ?d'). up_user_id p = u"
    by simp
  have again: "\<forall>pid' gen' now'. \<exists>ws. handle_new_user pid' gen' now' u ?d' = Inr (ws, ?d')"
    using second_provisioning[OF has_p has_c] by blast
  show "\<exists>d'. handle_new_user pid gen now u d = Inr ([], d')
           \<and> filter (\<lambda>p. up_user_id p = u) (user_profiles d') = [?p]
           \<and> filter (\<lambda>c. cat_user_id c = u \<and> is_default c = Some True) (categories d') = [?g]
           \<and> (\<forall>pid' gen' now'. \<exists>ws. handle_new_user pid' gen' now' u d' = Inr (ws, d'))"
    using run profs dflt again by blast
next
  let ?g = "\<lparr>cat_id = gen 0, cat_user_id = u, name = ''General'', color = ''#6B7280'',
             icon = ''folder'', is_default = Some True, cat_created_at = Some now\<rparr>"
  let ?rows = "starter_rows gen now u defaultCategories"
  let ?d' = "d\<lparr>categories := categories d @ ?rows\<rparr>"
  have old_c: "filter (\<lambda>c. cat_user_id c = u \<and> is_default c = Some True) (categories d) = []"
    using nocat by (simp add: filter_empty_conv)
  have "{0..<6::nat} \<subseteq> {0..<8}" by simp
  then have "gen ` {0..<6} \<subseteq> gen ` {0..<8}" by (rule image_mono)
  then have "set (map gen [0..<6]) \<subseteq> set (map gen [0..<8])" by simp
  then have fresh6: "set (map gen [0..<6]) \<inter> set (map cat_id (categories d)) = {}"
    using fresh by blast
  have dist6: "distinct (map gen [0..<6])"
    using dist by (auto simp: distinct_map intro: inj_on_subset)
  have run: "fetchCategories (Some u) gen now (cats, d) = (Done, ?rows, ?d')"
    using user nocat fresh6 dist6 by (rule fetchCategories_fresh)
  have "filter (\<lambda>c. cat_user_id c = u \<and> is_default c = Some True) ?rows = [?g]"
    using filter_owner_default[OF starter_rows_owner[of gen now u defaultCategories]]
    by (simp only: starter_rows_client_defaults)
  then have dflt: "filter (\<lambda>c. cat_user_id c = u \<and> is_default c = Some True) (categories ?d')
                   = [?g]"
    using old_c by simp
  have "\<exists>c\<in>set (categories ?d'). cat_user_id c = u"
    using filter_eq_singletonD[OF dflt] by blast
  then have again: "\<forall>gen' now' cats'.
                 snd (snd (fetchCategories (Some u) gen' now' (cats', ?d'))) = ?d'"
    using fetchCategories_again by blast
  show "\<exists>d'. fetchCategories (Some u) gen now (cats, d) = (Done, ?rows, d')
           \<and> filter (\<lambda>c. cat_user_id c = u \<and> is_default c = Some True) (categories d') = [?g]
           \<and> (\<forall>gen' now' cats'.
                 snd (snd (fetchCategories (Some u) gen' now' (cats', d'))) = d')"
    using run dflt again by blast
qed

theorem provisioning_once_witness:
  "\<exists>d'. handle_new_user 50 (\<lambda>k. 20 + of_nat k) 5 1 fresh_db = Inr ([], d')
      \<and> filter (\<lambda>p. up_user_id p = 1) (user_profiles d')
          = [\<lparr>up_id = 50, up_user_id = 1, currency_code = ''USD'', currency = ''$'',
              up_created_at = Some 5\<rparr>]
      \<and> filter (\<lambda>c. cat_user_id c = 1 \<and> is_default c = Some True) (categories d')
          = [\<lparr>cat_id = 20, cat_user_id = 1, name = ''General'', color = ''#6B7280'',
              icon = ''folder'', is_default = Some True, cat_created_at = Some 5\<rparr>]
      \<and> (\<exists>ws. handle_new_user 51 (\<lambda>k. 40 + of_nat k) 6 1 d' = Inr (ws, d'))"
proof -
  have user: "1 \<in> set (auth_users fresh_db)" by (simp add: fresh_db_def)
  have noprof: "\<forall>p\<in>set (user_profiles fresh_db). up_user_id p \<noteq> 1"
    by (simp add: fresh_db_def)
  have nocat: "\<forall>c\<in>set (categories fresh_db). cat_user_id c \<noteq> 1"
    by (simp add: fresh_db_def)
  have pid: "50 \<notin> set (map up_id (user_profiles fresh_db))"
    by (simp add: fresh_db_def)
  have fresh: "set (map (\<lambda>k. 20 + of_nat k) [0..<8]) \<inter> set (map cat_id (categories fresh_db)) = {}"
    by (simp add: fresh_db_def)
  have dist: "distinct (map (\<lambda>k. 20 + of_nat k :: uuid) [0..<8])"
    by (simp add: upt_rec)
  from provisioning_once [OF user noprof nocat pid fresh dist, of 5 "[]"]
  show ?thesis by (simp del: upt_Suc) blast
qed

section \<open>Provisioning never fails the creation of the user\<close>

lemma exception_when_others_returns:
  "\<exists>ws d'. exception_when_others msg body d = Inr (ws, d')"
  by (cases "body d") (auto simp: exception_when_others_def)

lemma insert_category_row_auth_users:
  "insert_category_row who r d = Inr d' \<Longrightarrow> auth_users d' = auth_users d"
  by (auto simp: insert_category_row_def split: if_splits)

lemma insert_category_rows_auth_users:
  "insert_category_rows who rows d = Inr d' \<Longrightarrow> auth_users d' = auth_users d"
proof (induction rows arbitrary: d)
  case Nil
  then show ?case by simp
next
  case (Cons r rows)
  then show ?case
    by (auto split: sum.splits dest: insert_category_row_auth_users)
qed

lemma insert_categories_auth_users:
  "insert_categories who rows d = Inr d' \<Longrightarrow> auth_users d' = auth_users d"
  by (auto simp: insert_categories_def split: sum.splits if_splits
        dest: insert_category_rows_auth_users)

lemma create_default_categories_for_user_auth_users:
  "create_default_categories_for_user gen now u d = Inr (ws, d') \<Longrightarrow> auth_users d' = auth_users d"
  by (auto simp: create_default_categories_for_user_def exception_when_others_def
        split: sum.splits dest: insert_categories_auth_users)

lemma create_default_user_profile_auth_users:
  "create_default_user_profile pid now u cc cs d = Inr (ws, d') \<Longrightarrow> auth_users d' = auth_users d"
  by (auto simp: create_default_user_profile_def exception_when_others_def
        insert_user_profile_on_conflict_do_nothing_def split: sum.splits if_splits)

lemma handle_new_user_auth_users:
  assumes "handle_new_user pid gen now u d = Inr (ws, d')"
  shows "auth_users d' = auth_users d"
proof (cases "create_default_user_profile pid now u ''USD'' ''$'' d")
  case (Inl e)
  with assms show ?thesis
    by (simp add: handle_new_user_def exception_when_others_def)
next
  case (Inr r1)
  obtain w1 d1 where r1: "r1 = (w1, d1)" by (cases r1)
  show ?thesis
  proof (cases "create_default_categories_for_user gen now u d1")
    case (Inl e)
    with assms Inr r1 show ?thesis
      by (simp add: handle_new_user_def exception_when_others_def)
  next
    case inr2: (Inr r2)
    obtain w2 d2 where r2: "r2 = (w2, d2)" by (cases r2)
    from assms Inr r1 inr2 r2 have "d' = d2"
      by (simp add: handle_new_user_def exception_when_others_def)
    with create_default_user_profile_auth_users[of pid now u "''USD''" "''$''" d w1 d1]
      create_default_categories_for_user_auth_users[of gen now u d1 w2 d2] Inr r1 inr2 r2
    show ?thesis by simp
  qed
qed

lemmas provisioning_eval = insert_auth_user_def handle_new_user_def
  create_default_user_profile_def create_default_categories_for_user_def
  exception_when_others_def insert_user_profile_on_conflict_do_nothing_def
  user_profiles_insert_policy_def starter_rows_def default_category_values_def

text \<open>
  Claim C7. The two provisioning functions and the trigger function \<^verbatim>\<open>handle_new_user\<close>
  return for every new user, every generated id and timestamp and all stored data: an error
  of the profile insert or of the category inserts is caught and comes back as a warning.
  So the insert into \<^verbatim>\<open>auth.users\<close> of a user who is not there yet succeeds and adds the
  user, whatever the provisioning did.
\<close>

theorem handle_new_user_never_fails:
  "(\<exists>ws d'. create_default_user_profile profile_id now new_user code symbol d = Inr (ws, d'))
   \<and> (\<exists>ws d'. create_default_categories_for_user gen now new_user d = Inr (ws, d'))
   \<and> (\<exists>ws d'. handle_new_user profile_id gen now new_user d = Inr (ws, d'))
   \<and> (new_user \<notin> set (auth_users d) \<longrightarrow>
        (\<exists>ws d'. insert_auth_user profile_id gen now new_user d = Inr (ws, d')
                 \<and> auth_users d' = auth_users d @ [new_user]))"
proof -
  have a: "\<exists>ws d'. create_default_user_profile profile_id now new_user code symbol d = Inr (ws, d')"
    unfolding create_default_user_profile_def by (rule exception_when_others_returns)
  have b: "\<exists>ws d'. create_default_categories_for_user gen now new_user d = Inr (ws, d')"
    unfolding create_default_categories_for_user_def by (rule exception_when_others_returns)
  have c: "\<And>d0. \<exists>ws d'. handle_new_user profile_id gen now new_user d0 = Inr (ws, d')"
    unfolding handle_new_user_def by (rule exception_when_others_returns)
  have "new_user \<notin> set (auth_users d) \<longrightarrow>
        (\<exists>ws d'. insert_auth_user profile_id gen now new_user d = Inr (ws, d')
                 \<and> auth_users d' = auth_users d @ [new_user])"
  proof
    assume new: "new_user \<notin> set (auth_users d)"
    from c obtain ws d' where run: "handle_new_user profile_id gen now new_user
        (d\<lparr>auth_users := auth_users d @ [new_user]\<rparr>) = Inr (ws, d')"
      by blast
    from handle_new_user_auth_users[OF run] have "auth_users d' = auth_users d @ [new_user]"
      by simp
    with new run show "\<exists>ws d'. insert_auth_user profile_id gen now new_user d = Inr (ws, d')
                 \<and> auth_users d' = auth_users d @ [new_user]"
      by (simp add: insert_auth_user_def)
  qed
  with a b c show ?thesis by blast
qed

theorem handle_new_user_never_fails_witness:
  "2 \<notin> set (auth_users taken_db)
   \<and> insert_auth_user 50 (\<lambda>k. 10 + of_nat k) 5 2 taken_db
       = Inr ([Warning ''Failed to create default profile for user''
                 (Unique_violation ''user_profiles_pkey''),
               Warning ''Failed to create default categories for user''
                 (Unique_violation ''categories_pkey'')],
              taken_db\<lparr>auth_users := [1, 2]\<rparr>)"
proof -
  have new: "2 \<notin> set (auth_users taken_db)"
    by (simp add: taken_db_def)
  have run: "insert_auth_user 50 (\<lambda>k. 10 + of_nat k) 5 2 taken_db
       = Inr ([Warning ''Failed to create default profile for user''
                 (Unique_violation ''user_profiles_pkey''),
               Warning ''Failed to create default categories for user''
                 (Unique_violation ''categories_pkey'')],
              taken_db\<lparr>auth_users := [1, 2]\<rparr>)"
    by (simp add: provisioning_eval statement_eval taken_db_def scenario_defs)
  from handle_new_user_never_fails [of 50 5 2 "''USD''" "''$''" taken_db "\<lambda>k. 10 + of_nat k"] new
  have "\<exists>ws d'. insert_auth_user 50 (\<lambda>k. 10 + of_nat k) 5 2 taken_db = Inr (ws, d')
                 \<and> auth_users d' = auth_users taken_db @ [2]"
    by blast
  with new run show ?thesis by simp
qed

section \<open>Row level security on the statements\<close>

lemma rls_owner:
  assumes "who \<noteq> Privileged"
  shows "rls who user_profiles_select_policy p \<longleftrightarrow> who = Authenticated (up_user_id p)"
    and "rls who user_profiles_insert_policy p \<longleftrightarrow> who = Authenticated (up_user_id p)"
    and "rls who user_profiles_update_policy p \<longleftrightarrow> who = Authenticated (up_user_id p)"
    and "rls who categories_select_policy c \<longleftrightarrow> who = Authenticated (cat_user_id c)"
    and "rls who categories_insert_policy c \<longleftrightarrow> who = Authenticated (cat_user_id c)"
    and "rls who categories_update_policy c \<longleftrightarrow> who = Authenticated (cat_user_id c)"
    and "rls who expenses_select_policy e \<longleftrightarrow> who = Authenticated (exp_user_id e)"
    and "rls who expenses_insert_policy e \<longleftrightarrow> who = Authenticated (exp_user_id e)"
    and "rls who expenses_update_policy e \<longleftrightarrow> who = Authenticated (exp_user_id e)"
    and "rls who expenses_delete_policy e \<longleftrightarrow> who = Authenticated (exp_user_id e)"
    and "rls who categories_delete_policy c \<Longrightarrow> who = Authenticated (cat_user_id c)"
    and "\<not> rls who no_policy p"
  using assms
  by (cases who; auto simp: user_profiles_select_policy_def user_profiles_insert_policy_def
        user_profiles_update_policy_def categories_select_policy_def
        categories_insert_policy_def categories_update_policy_def categories_delete_policy_def
        expenses_select_policy_def expenses_insert_policy_def expenses_update_policy_def
        expenses_delete_policy_def no_policy_def)+

lemma filter_map_replace:
  assumes "\<forall>r\<in>set xs. key r = k \<longrightarrow> \<not> P r" and "\<not> P new"
  shows "filter P (map (\<lambda>r. if key r = k then new else r) xs) = filter P xs"
  using assms by (induction xs) auto

lemma set_map_replace:
  "r \<in> set (map (\<lambda>r. if key r = k then new else r) xs) \<Longrightarrow> r = new \<or> r \<in> set xs"
  by auto

lemma distinct_key_eq:
  "distinct (map key xs) \<Longrightarrow> t \<in> set xs \<Longrightarrow> r \<in> set xs \<Longrightarrow> key r = key t \<Longrightarrow> r = t"
  by (meson distinct_map inj_onD)

subsection \<open>Categories\<close>

lemma insert_category_rows_owner:
  assumes "who \<noteq> Privileged"
  shows "insert_category_rows who rows d = Inr d'
         \<Longrightarrow> (\<forall>r\<in>set rows. who = Authenticated (cat_user_id r))
             \<and> categories d' = categories d @ rows"
proof (induction rows arbitrary: d)
  case Nil
  then show ?case by simp
next
  case (Cons r rows)
  from Cons.prems obtain d1 where row: "insert_category_row who r d = Inr d1"
    and rest: "insert_category_rows who rows d1 = Inr d'"
    by (auto split: sum.splits)
  from row have "rls who categories_insert_policy r" and "categories d1 = categories d @ [r]"
    by (auto simp: insert_category_row_def split: if_splits)
  with Cons.IH[OF rest] rls_owner(5)[OF assms] show ?case by simp
qed

lemma insert_categories_owner:
  assumes "who \<noteq> Privileged" and "insert_categories who rows d = Inr d'"
  shows "(\<forall>r\<in>set rows. who = Authenticated (cat_user_id r))
         \<and> categories d' = categories d @ rows"
  using assms(2) insert_category_rows_owner[OF assms(1), of rows d d']
  by (auto simp: insert_categories_def split: sum.splits if_splits)

lemma update_category_row_foreign:
  assumes who: "who \<noteq> Privileged"
    and run: "update_category_row who upd old d = Inr d'"
    and mine: "\<forall>r\<in>set (categories d). cat_id r = cat_id old \<longrightarrow> who = Authenticated (cat_user_id r)"
  shows "filter (\<lambda>r. who \<noteq> Authenticated (cat_user_id r)) (categories d')
         = filter (\<lambda>r. who \<noteq> Authenticated (cat_user_id r)) (categories d)"
    and "\<forall>r\<in>set (categories d'). r \<in> set (categories d) \<or> who = Authenticated (cat_user_id r)"
proof -
  from run have new: "rls who categories_update_policy (upd old)"
    and cats: "categories d' = map (\<lambda>r. if cat_id r = cat_id old then upd old else r) (categories d)"
    by (auto simp: update_category_row_def Let_def split: if_splits)
  from new have own: "who = Authenticated (cat_user_id (upd old))"
    by (simp add: rls_owner(6)[OF who])
  show "filter (\<lambda>r. who \<noteq> Authenticated (cat_user_id r)) (categories d')
         = filter (\<lambda>r. who \<noteq> Authenticated (cat_user_id r)) (categories d)"
    unfolding cats using mine own by (intro filter_map_replace) auto
  show "\<forall>r\<in>set (categories d'). r \<in> set (categories d) \<or> who = Authenticated (cat_user_id r)"
    unfolding cats using own by auto
qed

lemma update_category_rows_foreign:
  assumes who: "who \<noteq> Privileged"
  shows "update_category_rows who upd ts d = Inr d'
    \<Longrightarrow> \<forall>t\<in>set ts. \<forall>r\<in>set (categories d). cat_id r = cat_id t
          \<longrightarrow> who = Authenticated (cat_user_id r)
    \<Longrightarrow> filter (\<lambda>r. who \<noteq> Authenticated (cat_user_id r)) (categories d')
         = filter (\<lambda>r. who \<noteq> Authenticated (cat_user_id r)) (categories d)"
proof (induction ts arbitrary: d)
  case Nil
  then show ?case by simp
next
  case (Cons t ts)
  from Cons.prems(1) obtain d1 where row: "update_category_row who upd t d = Inr d1"
    and rest: "update_category_rows who upd ts d1 = Inr d'"
    by (auto split: sum.splits)
  have mine: "\<forall>r\<in>set (categories d). cat_id r = cat_id t \<longrightarrow> who = Authenticated (cat_user_id r)"
    using Cons.prems(2) by simp
  note step = update_category_row_foreign[OF who row mine]
  have "\<forall>t'\<in>set ts. \<forall>r\<in>set (categories d1). cat_id r = cat_id t'
          \<longrightarrow> who = Authenticated (cat_user_id r)"
    using step(2) Cons.prems(2) by (metis list.set_intros(2))
  from Cons.IH[OF rest this] step(1) show ?case by simp
qed

lemma update_categories_foreign:
  assumes who: "who \<noteq> Privileged" and pk: "categories_pkey (categories d)"
    and run: "update_categories who wh upd d = Inr d'"
  shows "filter (\<lambda>r. who \<noteq> Authenticated (cat_user_id r)) (categories d')
         = filter (\<lambda>r. who \<noteq> Authenticated (cat_user_id r)) (categories d)"
proof -
  let ?ts = "filter (\<lambda>c. rls who categories_select_policy c
                       \<and> rls who categories_update_policy c \<and> wh c) (categories d)"
  from run have rows: "update_category_rows who upd ?ts d = Inr d'"
    by (auto simp: update_categories_def Let_def split: sum.splits if_splits)
  have "\<forall>t\<in>set ?ts. \<forall>r\<in>set (categories d). cat_id r = cat_id t
          \<longrightarrow> who = Authenticated (cat_user_id r)"
  proof (intro ballI impI)
    fix t r assume t: "t \<in> set ?ts" and r: "r \<in> set (categories d)" "cat_id r = cat_id t"
    from t have "t \<in> set (categories d)" and "who = Authenticated (cat_user_id t)"
      by (simp_all add: rls_owner(4)[OF who])
    moreover from this(1) r pk have "r = t"
      using distinct_key_eq[of cat_id "categories d" t r] by (simp add: categories_pkey_def)
    ultimately show "who = Authenticated (cat_user_id r)" by simp
  qed
  with update_category_rows_foreign[OF who rows] show ?thesis .
qed

lemma delete_categories_foreign:
  assumes who: "who \<noteq> Privileged" and pk: "categories_pkey (categories d)"
    and run: "delete_categories who wh d = Inr d'"
  shows "filter (\<lambda>r. who \<noteq> Authenticated (cat_user_id r)) (categories d')
         = filter (\<lambda>r. who \<noteq> Authenticated (cat_user_id r)) (categories d)"
proof -
  let ?ts = "filter (\<lambda>c. rls who categories_select_policy c
                       \<and> rls who categories_delete_policy c \<and> wh c) (categories d)"
  from run obtain d1 where rows: "delete_category_rows ?ts d = Inr d1"
    and cats: "categories d' = categories d1"
    by (auto simp: delete_categories_def Let_def split: sum.splits)
  have left: "categories d' = filter (\<lambda>c. cat_id c \<notin> set (map cat_id ?ts)) (categories d)"
    using delete_category_rows_categories[OF rows] cats by simp
  have keep: "\<And>r. r \<in> set (categories d) \<Longrightarrow> who \<noteq> Authenticated (cat_user_id r)
                \<Longrightarrow> cat_id r \<notin> set (map cat_id ?ts)"
  proof
    fix r assume r: "r \<in> set (categories d)" "who \<noteq> Authenticated (cat_user_id r)"
      and "cat_id r \<in> set (map cat_id ?ts)"
    then obtain t where t: "t \<in> set ?ts" "cat_id t = cat_id r" by auto
    then have "t \<in> set (categories d)" and mine: "who = Authenticated (cat_user_id t)"
      by (simp_all add: rls_owner(4)[OF who])
    with pk r(1) t(2) have "t = r"
      using distinct_key_eq[of cat_id "categories d" r t] by (simp add: categories_pkey_def)
    with mine r(2) show False by simp
  qed
  have "filter (\<lambda>r. who \<noteq> Authenticated (cat_user_id r))
          (filter (\<lambda>c. cat_id c \<notin> set (map cat_id ?ts)) (categories d))
        = filter (\<lambda>r. who \<noteq> Authenticated (cat_user_id r)) (categories d)"
    by (simp only: filter_filter) (rule filter_cong, simp, use keep in blast)
  with left show ?thesis by simp
qed

subsection \<open>Expenses\<close>

lemma insert_expense_rows_owner:
  assumes "who \<noteq> Privileged"
  shows "insert_expense_rows who rows d = Inr d'
         \<Longrightarrow> (\<forall>r\<in>set rows. who = Authenticated (exp_user_id r))
             \<and> expenses d' = expenses d @ rows"
proof (induction rows arbitrary: d)
  case Nil
  then show ?case by simp
next
  case (Cons r rows)
  from Cons.prems obtain d1 where row: "insert_expense_row who r d = Inr d1"
    and rest: "insert_expense_rows who rows d1 = Inr d'"
    by (auto split: sum.splits)
  from row have "rls who expenses_insert_policy r" and "expenses d1 = expenses d @ [r]"
    by (auto simp: insert_expense_row_def split: if_splits)
  with Cons.IH[OF rest] rls_owner(8)[OF assms] show ?case by simp
qed

lemma insert_expenses_owner:
  assumes "who \<noteq> Privileged" and "insert_expenses who rows d = Inr d'"
  shows "(\<forall>r\<in>set rows. who = Authenticated (exp_user_id r))
         \<and> expenses d' = expenses d @ rows"
  using assms(2) insert_expense_rows_owner[OF assms(1), of rows d d']
  by (auto simp: insert_expenses_def split: sum.splits if_splits)

lemma update_expense_row_foreign:
  assumes who: "who \<noteq> Privileged"
    and run: "update_expense_row who upd old d = Inr d'"
    and mine: "\<forall>r\<in>set (expenses d). exp_id r = exp_id old \<longrightarrow> who = Authenticated (exp_user_id r)"
  shows "filter (\<lambda>r. who \<noteq> Authenticated (exp_user_id r)) (expenses d')
         = filter (\<lambda>r. who \<noteq> Authenticated (exp_user_id r)) (expenses d)"
    and "\<forall>r\<in>set (expenses d'). r \<in> set (expenses d) \<or> who = Authenticated (exp_user_id r)"
proof -
  from run have new: "rls who expenses_update_policy (upd old)"
    and rows: "expenses d' = map (\<lambda>r. if exp_id r = exp_id old then upd old else r) (expenses d)"
    by (auto simp: update_expense_row_def Let_def split: if_splits)
  from new have own: "who = Authenticated (exp_user_id (upd old))"
    by (simp add: rls_owner(9)[OF who])
  show "filter (\<lambda>r. who \<noteq> Authenticated (exp_user_id r)) (expenses d')
         = filter (\<lambda>r. who \<noteq> Authenticated (exp_user_id r)) (expenses d)"
    unfolding rows using mine own by (intro filter_map_replace) auto
  show "\<forall>r\<in>set (expenses d'). r \<in> set (expenses d) \<or> who = Authenticated (exp_user_id r)"
    unfolding rows using own by auto
qed

lemma update_expense_rows_foreign:
  assumes who: "who \<noteq> Privileged"
  shows "update_expense_rows who upd ts d = Inr d'
    \<Longrightarrow> \<forall>t\<in>set ts. \<forall>r\<in>set (expenses d). exp_id r = exp_id t
          \<longrightarrow> who = Authenticated (exp_user_id r)
    \<Longrightarrow> filter (\<lambda>r. who \<noteq> Authenticated (exp_user_id r)) (expenses d')
         = filter (\<lambda>r. who \<noteq> Authenticated (exp_user_id r)) (expenses d)"
proof (induction ts arbitrary: d)
  case Nil
  then show ?case by simp
next
  case (Cons t ts)
  from Cons.prems(1) obtain d1 where row: "update_expense_row who upd t d = Inr d1"
    and rest: "update_expense_rows who upd ts d1 = Inr d'"
    by (auto split: sum.splits)
  have mine: "\<forall>r\<in>set (expenses d). exp_id r = exp_id t \<longrightarrow> who = Authenticated (exp_user_id r)"
    using Cons.prems(2) by simp
  note step = update_expense_row_foreign[OF who row mine]
  have "\<forall>t'\<in>set ts. \<forall>r\<in>set (expenses d1). exp_id r = exp_id t'
          \<longrightarrow> who = Authenticated (exp_user_id r)"
    using step(2) Cons.prems(2) by (metis list.set_intros(2))
  from Cons.IH[OF rest this] step(1) show ?case by simp
qed

lemma update_expenses_foreign:
  assumes who: "who \<noteq> Privileged" and pk: "expenses_pkey (expenses d)"
    and run: "update_expenses who wh upd d = Inr d'"
  shows "filter (\<lambda>r. who \<noteq> Authenticated (exp_user_id r)) (expenses d')
         = filter (\<lambda>r. who \<noteq> Authenticated (exp_user_id r)) (expenses d)"
proof -
  let ?ts = "filter (\<lambda>e. rls who expenses_select_policy e
                       \<and> rls who expenses_update_policy e \<and> wh e) (expenses d)"
  from run have rows: "update_expense_rows who upd ?ts d = Inr d'"
    by (auto simp: update_expenses_def Let_def split: sum.splits if_splits)
  have "\<forall>t\<in>set ?ts. \<forall>r\<in>set (expenses d). exp_id r = exp_id t
          \<longrightarrow> who = Authenticated (exp_user_id r)"
  proof (intro ballI impI)
    fix t r assume t: "t \<in> set ?ts" and r: "r \<in> set (expenses d)" "exp_id r = exp_id t"
    from t have "t \<in> set (expenses d)" and "who = Authenticated (exp_user_id t)"
      by (simp_all add: rls_owner(7)[OF who])
    moreover from this(1) r pk have "r = t"
      using distinct_key_eq[of exp_id "expenses d" t r] by (simp add: expenses_pkey_def)
    ultimately show "who = Authenticated (exp_user_id r)" by simp
  qed
  with update_expense_rows_foreign[OF who rows] show ?thesis .
qed

lemma delete_expenses_foreign:
  assumes who: "who \<noteq> Privileged" and run: "delete_expenses who wh d = Inr d'"
  shows "filter (\<lambda>r. who \<noteq> Authenticated (exp_user_id r)) (expenses d')
         = filter (\<lambda>r. who \<noteq> Authenticated (exp_user_id r)) (expenses d)"
proof -
  from run have "expenses d' = filter (\<lambda>e. \<not> (rls who expenses_select_policy e
                              \<and> rls who expenses_delete_policy e \<and> wh e)) (expenses d)"
    by (auto simp: delete_expenses_def)
  then have "filter (\<lambda>r. who \<noteq> Authenticated (exp_user_id r)) (expenses d')
        = filter (\<lambda>r. (who \<noteq> Authenticated (exp_user_id r))
                       \<and> \<not> (rls who expenses_select_policy r
                              \<and> rls who expenses_delete_policy r \<and> wh r)) (expenses d)"
    by (simp add: conj_commute)
  also have "\<dots> = filter (\<lambda>r. who \<noteq> Authenticated (exp_user_id r)) (expenses d)"
    by (rule filter_cong) (auto simp: rls_owner(7)[OF who])
  finally show ?thesis .
qed

lemma deleteExpense_foreign:
  "filter (\<lambda>e. user \<noteq> Some (exp_user_id e))
     (expenses (snd (snd (deleteExpense user expenseId (exps, d)))))
   = filter (\<lambda>e. user \<noteq> Some (exp_user_id e)) (expenses d)"
proof (cases user)
  case None
  then show ?thesis
    by (simp add: deleteExpense_def delete_expenses_def session_def)
next
  case (Some uid)
  have "delete_expenses (Authenticated uid) (\<lambda>e. exp_id e = expenseId) d
        = Inr (snd (snd (deleteExpense user expenseId (exps, d))))"
    using Some by (simp add: deleteExpense_def delete_expenses_def session_def)
  from delete_expenses_foreign[OF _ this] Some show ?thesis by simp
qed

subsection \<open>Profiles\<close>

lemma insert_user_profile_owner:
  assumes "who \<noteq> Privileged" and "insert_user_profile who p d = Inr d'"
  shows "who = Authenticated (up_user_id p) \<and> user_profiles d' = user_profiles d @ [p]"
  using assms(2) rls_owner(2)[OF assms(1), of p]
  by (auto simp: insert_user_profile_def split: if_splits)

lemma update_user_profile_row_foreign:
  assumes who: "who \<noteq> Privileged"
    and run: "update_user_profile_row who upd old d = Inr d'"
    and mine: "\<forall>r\<in>set (user_profiles d). up_id r = up_id old \<longrightarrow> who = Authenticated (up_user_id r)"
  shows "filter (\<lambda>r. who \<noteq> Authenticated (up_user_id r)) (user_profiles d')
         = filter (\<lambda>r. who \<noteq> Authenticated (up_user_id r)) (user_profiles d)"
    and "\<forall>r\<in>set (user_profiles d'). r \<in> set (user_profiles d) \<or> who = Authenticated (up_user_id r)"
proof -
  from run have new: "rls who user_profiles_update_policy (upd old)"
    and rows: "user_profiles d'
                 = map (\<lambda>r. if up_id r = up_id old then upd old else r) (user_profiles d)"
    by (auto simp: update_user_profile_row_def Let_def split: if_splits)
  from new have own: "who = Authenticated (up_user_id (upd old))"
    by (simp add: rls_owner(3)[OF who])
  show "filter (\<lambda>r. who \<noteq> Authenticated (up_user_id r)) (user_profiles d')
         = filter (\<lambda>r. who \<noteq> Authenticated (up_user_id r)) (user_profiles d)"
    unfolding rows using mine own by (intro filter_map_replace) auto
  show "\<forall>r\<in>set (user_profiles d'). r \<in> set (user_profiles d) \<or> who = Authenticated (up_user_id r)"
    unfolding rows using own by auto
qed

lemma update_user_profile_rows_foreign:
  assumes who: "who \<noteq> Privileged"
  shows "update_user_profile_rows who upd ts d = Inr d'
    \<Longrightarrow> \<forall>t\<in>set ts. \<forall>r\<in>set (user_profiles d). up_id r = up_id t
          \<longrightarrow> who = Authenticated (up_user_id r)
    \<Longrightarrow> filter (\<lambda>r. who \<noteq> Authenticated (up_user_id r)) (user_profiles d')
         = filter (\<lambda>r. who \<noteq> Authenticated (up_user_id r)) (user_profiles d)"
proof (induction ts arbitrary: d)
  case Nil
  then show ?case by simp
next
  case (Cons t ts)
  from Cons.prems(1) obtain d1 where row: "update_user_profile_row who upd t d = Inr d1"
    and rest: "update_user_profile_rows who upd ts d1 = Inr d'"
    by (auto split: sum.splits)
  have mine: "\<forall>r\<in>set (user_profiles d). up_id r = up_id t \<longrightarrow> who = Authenticated (up_user_id r)"
    using Cons.prems(2) by simp
  note step = update_user_profile_row_foreign[OF who row mine]
  have "\<forall>t'\<in>set ts. \<forall>r\<in>set (user_profiles d1). up_id r = up_id t'
          \<longrightarrow> who = Authenticated (up_user_id r)"
    using step(2) Cons.prems(2) by (metis list.set_intros(2))
  from Cons.IH[OF rest this] step(1) show ?case by simp
qed

lemma update_user_profiles_foreign:
  assumes who: "who \<noteq> Privileged" and pk: "user_profiles_pkey (user_profiles d)"
    and run: "update_user_profiles who wh upd d = Inr d'"
  shows "filter (\<lambda>r. who \<noteq> Authenticated (up_user_id r)) (user_profiles d')
         = filter (\<lambda>r. who \<noteq> Authenticated (up_user_id r)) (user_profiles d)"
proof -
  let ?ts = "filter (\<lambda>p. rls who user_profiles_select_policy p
                       \<and> rls who user_profiles_update_policy p \<and> wh p) (user_profiles d)"
  from run have rows: "update_user_profile_rows who upd ?ts d = Inr d'"
    by (auto simp: update_user_profiles_def Let_def split: sum.splits if_splits)
  have "\<forall>t\<in>set ?ts. \<forall>r\<in>set (user_profiles d). up_id r = up_id t
          \<longrightarrow> who = Authenticated (up_user_id r)"
  proof (intro ballI impI)
    fix t r assume t: "t \<in> set ?ts" and r: "r \<in> set (user_profiles d)" "up_id r = up_id t"
    from t have "t \<in> set (user_profiles d)" and "who = Authenticated (up_user_id t)"
      by (simp_all add: rls_owner(1)[OF who])
    moreover from this(1) r pk have "r = t"
      using distinct_key_eq[of up_id "user_profiles d" t r] by (simp add: user_profiles_pkey_def)
    ultimately show "who = Authenticated (up_user_id r)" by simp
  qed
  with update_user_profile_rows_foreign[OF who rows] show ?thesis .
qed

lemma delete_user_profiles_nothing:
  assumes who: "who \<noteq> Privileged" and run: "delete_user_profiles who wh d = Inr d'"
  shows "user_profiles d' = user_profiles d"
  using run by (auto simp: delete_user_profiles_def rls_owner(12)[OF who])

lemmas shared_defs = guest_expense_def two_users_db_def shared_db_def

lemmas expense_eval = select_expenses_def update_expenses_def update_expense_row_def
  delete_expenses_def deleteExpense_def session_def insert_expenses_def insert_expense_row_def
  expenses_select_policy_def expenses_insert_policy_def expenses_update_policy_def
  expenses_delete_policy_def

subsection \<open>The policies on every statement\<close>

text \<open>
  Claim C8, as amended. Let the caller be under row level security: a signed-in user,
  whose identity is the one of the token, or a client without a token. On tables that
  satisfy their primary keys, and for every condition, row and new value the request
  gives: a select returns only rows whose owner is the caller; an insert that succeeds has
  added only rows whose owner is the caller; after an update or a delete that succeeds,
  the rows of the addressed table whose owner is not the caller are what they were, and a
  delete on the profiles removes nothing. \<^verbatim>\<open>deleteExpense\<close>, which filters on the id
  alone, leaves the expenses of every other owner as they were.
\<close>

theorem row_level_security:
  assumes who: "who \<noteq> Privileged"
    and pkp: "user_profiles_pkey (user_profiles d)"
    and pkc: "categories_pkey (categories d)"
    and pke: "expenses_pkey (expenses d)"
  shows "(\<forall>r\<in>set (select_user_profiles who whp d). who = Authenticated (up_user_id r))
       \<and> (\<forall>r\<in>set (select_categories who whc d). who = Authenticated (cat_user_id r))
       \<and> (\<forall>r\<in>set (select_expenses who whe d). who = Authenticated (exp_user_id r))
       \<and> (\<forall>d'. insert_user_profile who p d = Inr d' \<longrightarrow>
             who = Authenticated (up_user_id p) \<and> user_profiles d' = user_profiles d @ [p])
       \<and> (\<forall>d'. insert_categories who cs d = Inr d' \<longrightarrow>
             (\<forall>r\<in>set cs. who = Authenticated (cat_user_id r))
             \<and> categories d' = categories d @ cs)
       \<and> (\<forall>d'. insert_expenses who es d = Inr d' \<longrightarrow>
             (\<forall>r\<in>set es. who = Authenticated (exp_user_id r))
             \<and> expenses d' = expenses d @ es)
       \<and> (\<forall>d'. update_user_profiles who whp updp d = Inr d' \<longrightarrow>
             filter (\<lambda>r. who \<noteq> Authenticated (up_user_id r)) (user_profiles d')
             = filter (\<lambda>r. who \<noteq> Authenticated (up_user_id r)) (user_profiles d))
       \<and> (\<forall>d'. update_categories who whc updc d = Inr d' \<longrightarrow>
             filter (\<lambda>r. who \<noteq> Authenticated (cat_user_id r)) (categories d')
             = filter (\<lambda>r. who \<noteq> Authenticated (cat_user_id r)) (categories d))
       \<and> (\<forall>d'. update_expenses who whe upde d = Inr d' \<longrightarrow>
             filter (\<lambda>r. who \<noteq> Authenticated (exp_user_id r)) (expenses d')
             = filter (\<lambda>r. who \<noteq> Authenticated (exp_user_id r)) (expenses d))
       \<and> (\<forall>d'. delete_user_profiles who whp d = Inr d' \<longrightarrow>
             user_profiles d' = user_profiles d)
       \<and> (\<forall>d'. delete_categories who whc d = Inr d' \<longrightarrow>
             filter (\<lambda>r. who \<noteq> Authenticated (cat_user_id r)) (categories d')
             = filter (\<lambda>r. who \<noteq> Authenticated (cat_user_id r)) (categories d))
       \<and> (\<forall>d'. delete_expenses who whe d = Inr d' \<longrightarrow>
             filter (\<lambda>r. who \<noteq> Authenticated (exp_user_id r)) (expenses d')
             = filter (\<lambda>r. who \<noteq> Authenticated (exp_user_id r)) (expenses d))
       \<and> filter (\<lambda>e. user \<noteq> Some (exp_user_id e))
            (expenses (snd (snd (deleteExpense user expenseId (exps, d)))))
          = filter (\<lambda>e. user \<noteq> Some (exp_user_id e)) (expenses d)"
proof -
  have s1: "\<forall>r\<in>set (select_user_profiles who whp d). who = Authenticated (up_user_id r)"
    by (simp add: select_user_profiles_def rls_owner(1)[OF who])
  have s2: "\<forall>r\<in>set (select_categories who whc d). who = Authenticated (cat_user_id r)"
    by (simp add: select_categories_def rls_owner(4)[OF who])
  have s3: "\<forall>r\<in>set (select_expenses who whe d). who = Authenticated (exp_user_id r)"
    by (simp add: select_expenses_def rls_owner(7)[OF who])
  show ?thesis
    using s1 s2 s3
      insert_user_profile_owner[OF who, of p d]
      insert_categories_owner[OF who, of cs d]
      insert_expenses_owner[OF who, of es d]
      update_user_profiles_foreign[OF who pkp, of whp updp]
      update_categories_foreign[OF who pkc, of whc updc]
      update_expenses_foreign[OF who pke, of whe upde]
      delete_user_profiles_nothing[OF who, of whp d]
      delete_categories_foreign[OF who pkc, of whc]
      delete_expenses_foreign[OF who, of whe d]
      deleteExpense_foreign[of user expenseId exps d]
    by blast
qed

theorem row_level_security_witness:
  "select_expenses (Authenticated 2) (\<lambda>e. True) shared_db = [guest_expense]
   \<and> Authenticated 2 = Authenticated (exp_user_id guest_expense)
   \<and> update_expenses (Authenticated 2) (\<lambda>e. True) (\<lambda>e. e\<lparr>amount := 1\<rparr>) shared_db
       = Inr (shared_db\<lparr>expenses := [lunch_expense, guest_expense\<lparr>amount := 1\<rparr>]\<rparr>)
   \<and> deleteExpense (Some 2) 100 ([], shared_db) = (Done, [], shared_db)
   \<and> filter (\<lambda>e. Some 2 \<noteq> Some (exp_user_id e)) (expenses shared_db) = [lunch_expense]"
proof -
  have who: "Authenticated 2 \<noteq> Privileged" by simp
  have pkp: "user_profiles_pkey (user_profiles shared_db)"
    by (simp add: user_profiles_pkey_def shared_defs)
  have pkc: "categories_pkey (categories shared_db)"
    by (simp add: categories_pkey_def shared_defs scenario_defs)
  have pke: "expenses_pkey (expenses shared_db)"
    by (simp add: expenses_pkey_def shared_defs scenario_defs)
  note T = row_level_security [OF who pkp pkc pke, where whe = "\<lambda>e. True"
      and user = "Some 2" and expenseId = 100 and exps = "[]"]
  have sel: "select_expenses (Authenticated 2) (\<lambda>e. True) shared_db = [guest_expense]"
    by (simp add: expense_eval shared_defs scenario_defs)
  have upd: "update_expenses (Authenticated 2) (\<lambda>e. True) (\<lambda>e. e\<lparr>amount := 1\<rparr>) shared_db
       = Inr (shared_db\<lparr>expenses := [lunch_expense, guest_expense\<lparr>amount := 1\<rparr>]\<rparr>)"
    by (simp add: expense_eval shared_defs scenario_defs)
  have del: "deleteExpense (Some 2) 100 ([], shared_db) = (Done, [], shared_db)"
    by (simp add: expense_eval shared_defs scenario_defs)
  from T have "\<forall>r\<in>set (select_expenses (Authenticated 2) (\<lambda>e. True) shared_db).
                 Authenticated 2 = Authenticated (exp_user_id r)"
    by blast
  then have own: "Authenticated 2 = Authenticated (exp_user_id guest_expense)"
    by (simp only: sel) simp
  from T have "filter (\<lambda>e. Some 2 \<noteq> Some (exp_user_id e))
            (expenses (snd (snd (deleteExpense (Some 2) 100 ([], shared_db)))))
          = filter (\<lambda>e. Some 2 \<noteq> Some (exp_user_id e)) (expenses shared_db)"
    by blast
  moreover have "filter (\<lambda>e. Some 2 \<noteq> Some (exp_user_id e)) (expenses shared_db)
                 = [lunch_expense]"
    by (simp add: shared_defs scenario_defs)
  ultimately show ?thesis using sel own upd del by simp
qed

text \<open>
  The claim as stated fails on what a statement does outside the table it addresses. The
  second user records an expense on the first user's category Food, which the insert
  policy and the foreign key allow; the first user then deletes Food, and the trigger
  rewrites the category of the second user's expense.
\<close>

theorem trigger_moves_foreign_expense_counterexample:
  "insert_expenses (Authenticated 2) [guest_expense] two_users_db = Inr shared_db
   \<and> exp_user_id guest_expense = 2
   \<and> deleteCategory (Some 1) 11 ([general_cat, food_cat], shared_db)
       = (Done, [general_cat],
          shared_db\<lparr>categories := [general_cat],
            expenses := [lunch_expense\<lparr>category_id := 10\<rparr>,
                         guest_expense\<lparr>category_id := 10\<rparr>]\<rparr>)"
  by (simp add: expense_eval delete_eval shared_defs scenario_defs)

section \<open>Totals and shares\<close>


















section \<open>The client operations and the default flag\<close>












end
